theory Spec2Isabelle
  imports Main "HOL-Library.Word" "HOL-Library.AList"
begin

unbundle bit_operations_syntax

section \<open>Basic types: bytes, instants, durations\<close>

text \<open>
  A Go \<open>byte\<close> is an 8-bit word and a Go \<open>string\<close> is a sequence of bytes, which is what
  \<open>string\<close> (a list of 8-bit \<open>char\<close>) is; \<open>len(s)\<close> is \<open>length s\<close>.

  A \<open>time.Time\<close> is modelled by the instant it denotes, an integer count of nanoseconds
  since the Unix epoch; a \<open>time.Duration\<close> is Go's \<open>int64\<close> count of nanoseconds. Every
  function that calls \<open>time.Now()\<close> takes the instant read from the clock as its
  argument \<open>now\<close>.
\<close>

type_synonym byte = "8 word"
type_synonym time = int
type_synonym duration = int

definition Millisecond :: duration where "Millisecond = 1000000"
definition Second :: duration where "Second = 1000 * Millisecond"
definition Minute :: duration where "Minute = 60 * Second"
definition Hour :: duration where "Hour = 60 * Minute"

definition maxDuration :: duration where "maxDuration = 2 ^ 63 - 1"
definition minDuration :: duration where "minDuration = - (2 ^ 63)"

text \<open>\<open>t.Add(d)\<close>, \<open>t.After(u)\<close>, \<open>t.Before(u)\<close>; \<open>t.Sub(u)\<close> saturates at the ends of
  \<open>int64\<close>, as the Go documentation says.\<close>

definition time_Add :: "time \<Rightarrow> duration \<Rightarrow> time" where
  "time_Add t d = t + d"

definition time_After :: "time \<Rightarrow> time \<Rightarrow> bool" where
  "time_After t u = (t > u)"

definition time_Before :: "time \<Rightarrow> time \<Rightarrow> bool" where
  "time_Before t u = (t < u)"

definition time_Sub :: "time \<Rightarrow> time \<Rightarrow> duration" where
  "time_Sub t u = (if t - u > maxDuration then maxDuration
                   else if t - u < minDuration then minDuration else t - u)"

text \<open>\<open>time.Until(t)\<close> is \<open>t.Sub(time.Now())\<close>.\<close>

definition time_Until :: "time \<Rightarrow> time \<Rightarrow> duration" where
  "time_Until now t = time_Sub t now"

text \<open>The zero value of \<open>time.Time\<close> is midnight UTC of 1 January of year 1, which is
  62135596800 seconds before the Unix epoch.\<close>

definition zero_time :: time where
  "zero_time = - 62135596800 * Second"

section \<open>The random source\<close>

text \<open>
  \<open>rand.Read\<close> and \<open>io.ReadFull(rand.Reader, _)\<close> fill a buffer of \<open>n\<close> bytes from the
  system's random source or return an error. The source is modelled as the list of bytes
  it has yet to deliver: a read takes the first \<open>n\<close> of them, and a source that cannot
  deliver \<open>n\<close> bytes is a read that returns an error.
\<close>

type_synonym entropy = "byte list"

definition rand_Read :: "nat \<Rightarrow> entropy \<Rightarrow> byte list option \<times> entropy" where
  "rand_Read n src = (if length src < n then (None, src) else (Some (take n src), drop n src))"

section \<open>encoding/hex\<close>

text \<open>\<open>hex.EncodeToString\<close> writes two characters of \<open>hextable\<close> for each byte: the one at
  index \<open>v >> 4\<close> and the one at index \<open>v & 0x0f\<close>.\<close>

definition hextable :: string where
  "hextable = ''0123456789abcdef''"

definition hex_EncodeToString :: "byte list \<Rightarrow> string" where
  "hex_EncodeToString src =
     concat (map (\<lambda>v. [hextable ! unat (drop_bit 4 v), hextable ! unat (v AND 0x0f)]) src)"

text \<open>\<open>reverseHexTable\<close> maps the characters \<open>0-9\<close>, \<open>a-f\<close> and \<open>A-F\<close> to their value and
  every other byte to \<open>0xff\<close>; here the invalid entries are \<open>None\<close>.\<close>

definition fromHexChar :: "char \<Rightarrow> byte option" where
  "fromHexChar c =
     (let n = (of_char c :: nat) in
      if 48 \<le> n \<and> n \<le> 57 then Some (of_nat (n - 48))
      else if 97 \<le> n \<and> n \<le> 102 then Some (of_nat (n - 97 + 10))
      else if 65 \<le> n \<and> n \<le> 70 then Some (of_nat (n - 65 + 10))
      else None)"

definition is_hex_char :: "char \<Rightarrow> bool" where
  "is_hex_char c = (fromHexChar c \<noteq> None)"

datatype hex_error = InvalidByteError char | ErrLength

text \<open>\<open>hex.DecodeString\<close>: pairs of characters are decoded from the left, the first
  invalid character is reported, and a trailing single character is reported as invalid
  if it is, as a length error otherwise.\<close>

fun hex_DecodeString :: "string \<Rightarrow> hex_error + byte list" where
  "hex_DecodeString [] = Inr []"
| "hex_DecodeString [p] =
     (case fromHexChar p of None \<Rightarrow> Inl (InvalidByteError p) | Some a \<Rightarrow> Inl ErrLength)"
| "hex_DecodeString (p # q # rest) =
     (case fromHexChar p of
        None \<Rightarrow> Inl (InvalidByteError p)
      | Some a \<Rightarrow>
          (case fromHexChar q of
             None \<Rightarrow> Inl (InvalidByteError q)
           | Some b \<Rightarrow>
               (case hex_DecodeString rest of
                  Inl e \<Rightarrow> Inl e
                | Inr bs \<Rightarrow> Inr ((push_bit 4 a OR b) # bs))))"

section \<open>Session tokens\<close>

datatype error =
    MaxSessionsReached
  | TokenGenerationFailed
  | SessionNotFoundOrInactive
  | SessionNotFound
  | RandomFailure
  | KeySizeError
  | InvalidPasswordOrCorruptedData
  | NonceLengthPanic
  | MarshalFailed
  | UnmarshalFailed
  | EncryptFailed
  | DecryptFailed
  | FileNotExist
  | ReadFailed
  | MkdirFailed
  | WriteFailed
  | RenameFailed

text \<open>\<open>SessionManager.generateSessionToken\<close> and \<open>SecurityManager.GenerateSessionToken\<close>:
  32 random bytes, written in hexadecimal.\<close>

definition generateSessionToken :: "entropy \<Rightarrow> (error + string) \<times> entropy" where
  "generateSessionToken src =
     (case rand_Read 32 src of
        (None, src') \<Rightarrow> (Inl RandomFailure, src')
      | (Some bytes, src') \<Rightarrow> (Inr (hex_EncodeToString bytes), src'))"

definition GenerateSessionToken :: "entropy \<Rightarrow> (error + string) \<times> entropy" where
  "GenerateSessionToken secureRandom =
     (case rand_Read 32 secureRandom of
        (None, src') \<Rightarrow> (Inl RandomFailure, src')
      | (Some bytes, src') \<Rightarrow> (Inr (hex_EncodeToString bytes), src'))"

definition ValidateSessionToken :: "string \<Rightarrow> bool" where
  "ValidateSessionToken token =
     (if length token \<noteq> 64 then False
      else (case hex_DecodeString token of Inl err \<Rightarrow> False | Inr bs \<Rightarrow> True))"

section \<open>The session registry\<close>

text \<open>
  \<open>models.Wallet\<close> with the key material the registry clears: the mnemonic and the
  private key, a pointer to an \<open>ecdsa.PrivateKey\<close> whose secret scalar \<open>D\<close> is a pointer
  to a big integer. A nil pointer is \<open>None\<close>.
\<close>

record PrivateKey =
  D :: "int option"

record CachedBalance =
  VET :: int
  VTHO :: int
  LastUpdated :: time

record Wallet =
  ID :: string
  Name :: string
  Address :: string
  Mnemonic :: string
  PrivateKey :: "PrivateKey option"
  wallet_CreatedAt :: time
  IsEncrypted :: bool
  CachedBalance :: "CachedBalance option"
  LastSync :: time

record WalletSession =
  WalletID :: string
  UnlockedWallet :: "Wallet option"
  CreatedAt :: time
  LastActivity :: time
  ExpiresAt :: time
  SessionToken :: string
  IsActive :: bool

record SessionConfig =
  DefaultTimeout :: duration
  MaxSessions :: int
  CleanupInterval :: duration
  InactivityLimit :: duration
  RequirePassword :: bool

record SessionActivity =
  act_WalletID :: string
  Action :: string
  Timestamp :: time
  ViewName :: string

text \<open>
  The Go map \<open>sessions\<close> is an association list with one entry for each key:
  \<open>sessions[k] = v\<close> is \<open>AList.update k v\<close>, \<open>delete(sessions, k)\<close> is \<open>AList.delete k\<close>,
  a lookup is \<open>map_of\<close> and \<open>len(sessions)\<close> is the length. The order of the list stands
  for the order in which a \<open>range\<close> loop visits the entries, which Go leaves open. The
  mutex, the ticker and the channels of the manager are not part of the state: each
  operation holds the lock from its first to its last step.
\<close>

record SessionManager =
  sessions :: "(string \<times> WalletSession) list"
  config :: SessionConfig

definition NewSessionManager :: SessionManager where
  "NewSessionManager =
     \<lparr> sessions = [],
       config = \<lparr> DefaultTimeout = 5 * Minute, MaxSessions = 5,
                  CleanupInterval = 30 * Second, InactivityLimit = 5 * Minute,
                  RequirePassword = True \<rparr> \<rparr>"

definition CreateSession ::
  "time \<Rightarrow> entropy \<Rightarrow> Wallet \<Rightarrow> SessionManager \<Rightarrow> (error + WalletSession) \<times> SessionManager" where
  "CreateSession now src wallet sm =
     (if int (length (sessions sm)) \<ge> MaxSessions (config sm) then (Inl MaxSessionsReached, sm)
      else
        (case fst (generateSessionToken src) of
           Inl err \<Rightarrow> (Inl TokenGenerationFailed, sm)
         | Inr token \<Rightarrow>
             (let session = \<lparr> WalletID = ID wallet, UnlockedWallet = Some wallet,
                               CreatedAt = now, LastActivity = now,
                               ExpiresAt = time_Add now (DefaultTimeout (config sm)),
                               SessionToken = token, IsActive = True \<rparr>
              in (Inr session, sm\<lparr>sessions := AList.update (ID wallet) session (sessions sm)\<rparr>))))"

definition GetSession :: "time \<Rightarrow> string \<Rightarrow> SessionManager \<Rightarrow> WalletSession option" where
  "GetSession now walletID sm =
     (case map_of (sessions sm) walletID of
        None \<Rightarrow> None
      | Some session \<Rightarrow>
          (if \<not> IsActive session \<or> time_After now (ExpiresAt session) then None
           else Some session))"

definition ValidateSession :: "time \<Rightarrow> string \<Rightarrow> string \<Rightarrow> SessionManager \<Rightarrow> bool" where
  "ValidateSession now walletID token sm =
     (case map_of (sessions sm) walletID of
        None \<Rightarrow> False
      | Some session \<Rightarrow>
          (if \<not> IsActive session then False
           else if time_After now (ExpiresAt session) then False
           else SessionToken session = token))"

definition ExtendSession :: "time \<Rightarrow> string \<Rightarrow> SessionManager \<Rightarrow> error option \<times> SessionManager" where
  "ExtendSession now walletID sm =
     (case map_of (sessions sm) walletID of
        None \<Rightarrow> (Some SessionNotFoundOrInactive, sm)
      | Some session \<Rightarrow>
          (if \<not> IsActive session then (Some SessionNotFoundOrInactive, sm)
           else
             (let session' = session\<lparr>LastActivity := now,
                                     ExpiresAt := time_Add now (DefaultTimeout (config sm))\<rparr>
              in (None, sm\<lparr>sessions := AList.update walletID session' (sessions sm)\<rparr>))))"

text \<open>
  \<open>clearSensitiveData\<close> writes through the session's pointer to the caller's wallet. The
  secret scalar is set to zero before the pointer to the key is dropped, so the zeroed
  key object is not reachable from the wallet afterwards.
\<close>

definition clearSensitiveData :: "WalletSession \<Rightarrow> WalletSession" where
  "clearSensitiveData session =
     (let session' =
        (case UnlockedWallet session of
           None \<Rightarrow> session
         | Some w \<Rightarrow>
             (case PrivateKey w of
                None \<Rightarrow> session
              | Some key \<Rightarrow>
                  session\<lparr>UnlockedWallet := Some (w\<lparr>PrivateKey := None, Mnemonic := []\<rparr>)\<rparr>))
      in session'\<lparr>SessionToken := []\<rparr>)"

text \<open>
  \<open>CloseSession\<close> returns an error only. The session object it cleared stays reachable
  through the pointers that \<open>CreateSession\<close> and \<open>GetSession\<close> handed out, so the model
  returns the final contents of that object as its second component.
\<close>

definition CloseSession ::
  "string \<Rightarrow> SessionManager \<Rightarrow> error option \<times> WalletSession option \<times> SessionManager" where
  "CloseSession walletID sm =
     (case map_of (sessions sm) walletID of
        None \<Rightarrow> (Some SessionNotFound, None, sm)
      | Some session \<Rightarrow>
          (let closed = clearSensitiveData (session\<lparr>IsActive := False\<rparr>)
           in (None, Some closed, sm\<lparr>sessions := AList.delete walletID (sessions sm)\<rparr>)))"

definition CloseAllSessions :: "SessionManager \<Rightarrow> SessionManager" where
  "CloseAllSessions sm = sm\<lparr>sessions := []\<rparr>"

definition UpdateConfig :: "SessionConfig \<Rightarrow> SessionManager \<Rightarrow> SessionManager" where
  "UpdateConfig cfg sm = sm\<lparr>config := cfg\<rparr>"

definition cleanupExpiredSessions :: "time \<Rightarrow> SessionManager \<Rightarrow> SessionManager" where
  "cleanupExpiredSessions now sm =
     sm\<lparr>sessions := filter (\<lambda>(walletID, session). \<not> time_After now (ExpiresAt session))
                              (sessions sm)\<rparr>"

definition handleActivity :: "time \<Rightarrow> SessionActivity \<Rightarrow> SessionManager \<Rightarrow> SessionManager" where
  "handleActivity now activity sm =
     (case map_of (sessions sm) (act_WalletID activity) of
        None \<Rightarrow> sm
      | Some session \<Rightarrow>
          (if \<not> IsActive session then sm
           else
             (let session' = session\<lparr>LastActivity := now,
                                     ExpiresAt := time_Add now (DefaultTimeout (config sm))\<rparr>
              in sm\<lparr>sessions := AList.update (act_WalletID activity) session' (sessions sm)\<rparr>)))"

section \<open>The attempt tracker and the security manager\<close>

text \<open>\<open>Count\<close> and \<open>maxAttempts\<close> are Go \<open>int\<close>s; a counter of failed attempts stays far
  from the ends of \<open>int64\<close>, so they are integers here.\<close>

record AttemptRecord =
  Count :: int
  LastAttempt :: time
  LockedUntil :: time
  IPAddress :: string

record AttemptTracker =
  attempts :: "(string \<times> AttemptRecord) list"
  lockoutDuration :: duration
  maxAttempts :: int

record SecurityManager =
  sessionManager :: SessionManager
  attemptTracker :: AttemptTracker
  encryptionKey :: "byte list"

text \<open>\<open>NewSecurityManager\<close> panics when the random source fails; the panic is \<open>None\<close>.\<close>

definition NewSecurityManager :: "SessionManager \<Rightarrow> entropy \<Rightarrow> SecurityManager option" where
  "NewSecurityManager sm src =
     (case fst (rand_Read 32 src) of
        None \<Rightarrow> None
      | Some key \<Rightarrow>
          Some \<lparr> sessionManager = sm,
                 attemptTracker = \<lparr> attempts = [], lockoutDuration = 15 * Minute, maxAttempts = 3 \<rparr>,
                 encryptionKey = key \<rparr>)"

definition calculateLockoutDuration :: "int \<Rightarrow> duration" where
  "calculateLockoutDuration attemptCount =
     (if attemptCount \<le> 3 then 1 * Minute
      else if attemptCount \<le> 5 then 5 * Minute
      else if attemptCount \<le> 7 then 15 * Minute
      else 1 * Hour)"

definition IsAccountLocked :: "time \<Rightarrow> string \<Rightarrow> SecurityManager \<Rightarrow> bool" where
  "IsAccountLocked now walletID sm =
     (case map_of (attempts (attemptTracker sm)) walletID of
        None \<Rightarrow> False
      | Some record \<Rightarrow> time_Before now (LockedUntil record))"

definition RecordFailedAttempt :: "time \<Rightarrow> string \<Rightarrow> SecurityManager \<Rightarrow> SecurityManager" where
  "RecordFailedAttempt now walletID sm =
     (let tracker = attemptTracker sm;
          record0 = (case map_of (attempts tracker) walletID of
                       None \<Rightarrow> \<lparr> Count = 0, LastAttempt = now, LockedUntil = zero_time,
                                  IPAddress = [] \<rparr>
                     | Some r \<Rightarrow> r);
          record1 = record0\<lparr>Count := Count record0 + 1, LastAttempt := now\<rparr>;
          record2 = (if Count record1 \<ge> maxAttempts tracker
                     then record1\<lparr>LockedUntil :=
                                     time_Add now (calculateLockoutDuration (Count record1))\<rparr>
                     else record1)
      in sm\<lparr>attemptTracker := tracker\<lparr>attempts := AList.update walletID record2 (attempts tracker)\<rparr>\<rparr>)"

definition RecordSuccessfulAttempt :: "string \<Rightarrow> SecurityManager \<Rightarrow> SecurityManager" where
  "RecordSuccessfulAttempt walletID sm =
     sm\<lparr>attemptTracker :=
          (attemptTracker sm)\<lparr>attempts := AList.delete walletID (attempts (attemptTracker sm))\<rparr>\<rparr>"

definition GetRemainingLockoutTime :: "time \<Rightarrow> string \<Rightarrow> SecurityManager \<Rightarrow> duration" where
  "GetRemainingLockoutTime now walletID sm =
     (case map_of (attempts (attemptTracker sm)) walletID of
        None \<Rightarrow> 0
      | Some record \<Rightarrow>
          (let remaining = time_Until now (LockedUntil record)
           in if remaining < 0 then 0 else remaining))"

definition GetFailedAttemptCount :: "string \<Rightarrow> SecurityManager \<Rightarrow> int" where
  "GetFailedAttemptCount walletID sm =
     (case map_of (attempts (attemptTracker sm)) walletID of
        None \<Rightarrow> 0
      | Some record \<Rightarrow> Count record)"

definition UpdateAttemptTrackerConfig :: "int \<Rightarrow> duration \<Rightarrow> SecurityManager \<Rightarrow> SecurityManager" where
  "UpdateAttemptTrackerConfig maxAtt lockout sm =
     sm\<lparr>attemptTracker := (attemptTracker sm)\<lparr>maxAttempts := maxAtt, lockoutDuration := lockout\<rparr>\<rparr>"

text \<open>\<open>SecurityLevel\<close> is a string type with four named values; the \<open>switch\<close> has no
  default, so any other string leaves the manager as it is.\<close>

type_synonym SecurityLevel = string

definition SecurityLow :: SecurityLevel where "SecurityLow = ''low''"
definition SecurityMedium :: SecurityLevel where "SecurityMedium = ''medium''"
definition SecurityHigh :: SecurityLevel where "SecurityHigh = ''high''"
definition SecurityMax :: SecurityLevel where "SecurityMax = ''max''"

definition ApplySecurityLevel :: "SecurityLevel \<Rightarrow> SecurityManager \<Rightarrow> SecurityManager" where
  "ApplySecurityLevel level sm =
     (if level = SecurityLow then
        UpdateAttemptTrackerConfig 5 (1 * Minute)
          (sm\<lparr>sessionManager := UpdateConfig
                 \<lparr> DefaultTimeout = 30 * Minute, MaxSessions = 10,
                   CleanupInterval = 60 * Second, InactivityLimit = 30 * Minute,
                   RequirePassword = False \<rparr> (sessionManager sm)\<rparr>)
      else if level = SecurityMedium then
        UpdateAttemptTrackerConfig 3 (5 * Minute)
          (sm\<lparr>sessionManager := UpdateConfig
                 \<lparr> DefaultTimeout = 15 * Minute, MaxSessions = 5,
                   CleanupInterval = 30 * Second, InactivityLimit = 15 * Minute,
                   RequirePassword = True \<rparr> (sessionManager sm)\<rparr>)
      else if level = SecurityHigh then
        UpdateAttemptTrackerConfig 3 (15 * Minute)
          (sm\<lparr>sessionManager := UpdateConfig
                 \<lparr> DefaultTimeout = 5 * Minute, MaxSessions = 3,
                   CleanupInterval = 15 * Second, InactivityLimit = 5 * Minute,
                   RequirePassword = True \<rparr> (sessionManager sm)\<rparr>)
      else if level = SecurityMax then
        UpdateAttemptTrackerConfig 1 (1 * Hour)
          (sm\<lparr>sessionManager := UpdateConfig
                 \<lparr> DefaultTimeout = 2 * Minute, MaxSessions = 1,
                   CleanupInterval = 10 * Second, InactivityLimit = 2 * Minute,
                   RequirePassword = True \<rparr> (sessionManager sm)\<rparr>)
      else sm)"

section \<open>The activity monitor\<close>

text \<open>
  \<open>ActionFrequency\<close> and \<open>viewCount\<close> are Go maps from strings to \<open>int\<close>; reading a key
  that is absent gives 0, and \<open>m[k]++\<close> stores the value read plus one.
\<close>

definition freq_get :: "(string \<times> int) list \<Rightarrow> string \<Rightarrow> int" where
  "freq_get m k = (case map_of m k of None \<Rightarrow> 0 | Some n \<Rightarrow> n)"

definition freq_incr :: "(string \<times> int) list \<Rightarrow> string \<Rightarrow> (string \<times> int) list" where
  "freq_incr m k = AList.update k (freq_get m k + 1) m"

record ActivityPattern =
  pat_WalletID :: string
  ViewTransitions :: "string list"
  ActionFrequency :: "(string \<times> int) list"
  TimePattern :: "time list"
  RiskScore :: int

record ActivityMonitor =
  activityLog :: "SessionActivity list"
  suspiciousThreshold :: int
  logRetention :: duration

definition NewActivityMonitor :: ActivityMonitor where
  "NewActivityMonitor = \<lparr> activityLog = [], suspiciousThreshold = 10, logRetention = 24 * Hour \<rparr>"

definition GetRecentActivity ::
  "time \<Rightarrow> string \<Rightarrow> duration \<Rightarrow> ActivityMonitor \<Rightarrow> SessionActivity list" where
  "GetRecentActivity now walletID dur am =
     (let cutoff = time_Add now (- dur)
      in filter (\<lambda>activity. act_WalletID activity = walletID
                            \<and> time_After (Timestamp activity) cutoff) (activityLog am))"

text \<open>The loop over \<open>i = 1, ..., len(TimePattern) - 1\<close> that counts the entries less than
  500 ms after their predecessor.\<close>

fun rapidTransitions :: "time list \<Rightarrow> int" where
  "rapidTransitions (a # b # rest) =
     (if time_Sub b a < 500 * Millisecond then 1 else 0) + rapidTransitions (b # rest)"
| "rapidTransitions ts = 0"

text \<open>The loop over \<open>ViewTransitions\<close>: each view is counted in \<open>viewCount\<close>, and
  \<open>repeatedViews\<close> goes up by one each time the count just stored is above 10.\<close>

fun repeatedViews :: "string list \<Rightarrow> (string \<times> int) list \<Rightarrow> int \<Rightarrow> int" where
  "repeatedViews [] viewCount repeated = repeated"
| "repeatedViews (view # rest) viewCount repeated =
     (let viewCount' = freq_incr viewCount view
      in repeatedViews rest viewCount'
           (if freq_get viewCount' view > 10 then repeated + 1 else repeated))"

definition calculateRiskScore :: "ActivityPattern \<Rightarrow> int" where
  "calculateRiskScore pattern =
     (let riskScore1 = (if length (ViewTransitions pattern) > 50 then 5 else 0);
          riskScore2 = (if rapidTransitions (TimePattern pattern) > 10
                        then riskScore1 + 3 else riskScore1);
          riskScore3 = (if freq_get (ActionFrequency pattern) ''password_attempt'' > 5
                        then riskScore2 + 8 else riskScore2);
          riskScore4 = (if freq_get (ActionFrequency pattern) ''failed_transaction'' > 3
                        then riskScore3 + 4 else riskScore3)
      in if repeatedViews (ViewTransitions pattern) [] 0 > 2
         then riskScore4 + 2 else riskScore4)"

definition analyzeActivityPattern :: "time \<Rightarrow> string \<Rightarrow> ActivityMonitor \<Rightarrow> ActivityPattern" where
  "analyzeActivityPattern now walletID am =
     (let recentActivity = GetRecentActivity now walletID (1 * Hour) am;
          pattern = foldl
            (\<lambda>p activity.
               p\<lparr>ViewTransitions := ViewTransitions p @ [ViewName activity],
                 ActionFrequency := freq_incr (ActionFrequency p) (Action activity),
                 TimePattern := TimePattern p @ [Timestamp activity]\<rparr>)
            \<lparr> pat_WalletID = walletID, ViewTransitions = [], ActionFrequency = [],
              TimePattern = [], RiskScore = 0 \<rparr>
            recentActivity
      in pattern\<lparr>RiskScore := calculateRiskScore pattern\<rparr>)"

definition DetectSuspiciousActivity :: "time \<Rightarrow> string \<Rightarrow> ActivityMonitor \<Rightarrow> bool" where
  "DetectSuspiciousActivity now walletID am =
     (RiskScore (analyzeActivityPattern now walletID am) > suspiciousThreshold am)"

text \<open>The quantities the risk score is a function of, read off a list of activities:
  how many have a given action, how many follow their predecessor by less than 500 ms,
  and how many visits of a view come after the tenth visit of that view.\<close>

definition action_count :: "SessionActivity list \<Rightarrow> string \<Rightarrow> nat" where
  "action_count acts a = length (filter (\<lambda>x. Action x = a) acts)"

definition rapid_pairs :: "time list \<Rightarrow> nat" where
  "rapid_pairs ts = length (filter (\<lambda>(a, b). b - a < 500 * Millisecond) (zip ts (tl ts)))"

definition visits_beyond_tenth :: "string list \<Rightarrow> nat" where
  "visits_beyond_tenth views = (\<Sum>v \<in> set views. count_list views v - 10)"

text \<open>The number of visits beyond the tenth, for a count that may start above zero.\<close>

definition excess :: "int \<Rightarrow> int" where
  "excess n = (if n > 10 then n - 10 else 0)"

text \<open>The risk score as the specification words it: the last term is 2 as soon as one
  view occurs more than 10 times.\<close>

definition risk_score_as_specified :: "SessionActivity list \<Rightarrow> int" where
  "risk_score_as_specified acts =
     (if length acts > 50 then 5 else 0)
   + (if rapid_pairs (map Timestamp acts) > 10 then 3 else 0)
   + (if action_count acts ''password_attempt'' > 5 then 8 else 0)
   + (if action_count acts ''failed_transaction'' > 3 then 4 else 0)
   + (if list_ex (\<lambda>v. count_list (map ViewName acts) v > 10) (map ViewName acts) then 2 else 0)"

text \<open>Twelve visits of one view by one identity, a second apart.\<close>

definition twelve_visits :: ActivityMonitor where
  "twelve_visits =
     NewActivityMonitor\<lparr>activityLog :=
       map (\<lambda>i. \<lparr> act_WalletID = ''W3'', Action = ''navigate'', Timestamp = int i * Second,
                   ViewName = ''dashboard'' \<rparr>) [0..<12]\<rparr>"

section \<open>The session store\<close>

text \<open>
  The records of the store. \<open>storage.EncryptedData\<close> is the result of \<open>storage.Encrypt\<close>;
  the field \<open>EncryptedData\<close> of a persisted session holds its JSON encoding.
\<close>

record storage_EncryptedData =
  Salt :: "byte list"
  Nonce :: "byte list"
  Ciphertext :: "byte list"

record PersistedSession =
  ps_WalletID :: string
  ps_SessionToken :: string
  ps_CreatedAt :: time
  ps_ExpiresAt :: time
  EncryptedData :: "byte list"
  Checksum :: string

record SessionData =
  sd_WalletID :: string
  sd_LastActivity :: time
  sd_IsActive :: bool

record SessionStore =
  ss_encryptionKey :: "byte list"
  sessionFile :: string

text \<open>
  The library functions the store calls are parameters of the model: \<open>json.Marshal\<close> and
  \<open>json.Unmarshal\<close> at the three types they are used at (\<open>None\<close> is an error),
  \<open>pbkdf2.Key\<close> with the iteration count, key length and hash of \<open>storage\<close> fixed, the
  \<open>Seal\<close> and \<open>Open\<close> of AES-GCM for a key and a nonce (\<open>None\<close> is a failed
  authentication), and \<open>sha256.Sum256\<close>.
\<close>

record primitives =
  json_Marshal_SessionData :: "SessionData \<Rightarrow> byte list option"
  json_Unmarshal_SessionData :: "byte list \<Rightarrow> SessionData option"
  json_Marshal_EncryptedData :: "storage_EncryptedData \<Rightarrow> byte list option"
  json_Unmarshal_EncryptedData :: "byte list \<Rightarrow> storage_EncryptedData option"
  json_Marshal_Sessions :: "PersistedSession list \<Rightarrow> byte list option"
  json_Unmarshal_Sessions :: "byte list \<Rightarrow> PersistedSession list option"
  pbkdf2_Key :: "string \<Rightarrow> byte list \<Rightarrow> byte list"
  gcm_Seal :: "byte list \<Rightarrow> byte list \<Rightarrow> byte list \<Rightarrow> byte list"
  gcm_Open :: "byte list \<Rightarrow> byte list \<Rightarrow> byte list \<Rightarrow> byte list option"
  sha256_Sum256 :: "byte list \<Rightarrow> byte list"

text \<open>\<open>aes.NewCipher\<close> accepts keys of 16, 24 and 32 bytes and returns an error for any
  other; \<open>cipher.NewGCM\<close> on an AES block does not fail.\<close>

definition aes_NewCipher_ok :: "byte list \<Rightarrow> bool" where
  "aes_NewCipher_ok key = (length key = 16 \<or> length key = 24 \<or> length key = 32)"

definition saltLength :: nat where "saltLength = 32"
definition nonceLength :: nat where "nonceLength = 12"

definition Encrypt ::
  "primitives \<Rightarrow> byte list \<Rightarrow> string \<Rightarrow> entropy \<Rightarrow> (error + storage_EncryptedData) \<times> entropy" where
  "Encrypt P data password src =
     (case rand_Read saltLength src of
        (None, src1) \<Rightarrow> (Inl RandomFailure, src1)
      | (Some salt, src1) \<Rightarrow>
          (let key = pbkdf2_Key P password salt in
           if \<not> aes_NewCipher_ok key then (Inl KeySizeError, src1)
           else
             (case rand_Read nonceLength src1 of
                (None, src2) \<Rightarrow> (Inl RandomFailure, src2)
              | (Some nonce, src2) \<Rightarrow>
                  (Inr \<lparr> Salt = salt, Nonce = nonce, Ciphertext = gcm_Seal P key nonce data \<rparr>,
                   src2))))"

text \<open>\<open>Open\<close> of Go's GCM panics when the nonce does not have the standard length of 12
  bytes; a failed authentication is the error \<open>invalid password or corrupted data\<close>.\<close>

definition Decrypt :: "primitives \<Rightarrow> storage_EncryptedData \<Rightarrow> string \<Rightarrow> error + byte list" where
  "Decrypt P encData password =
     (let key = pbkdf2_Key P password (Salt encData) in
      if \<not> aes_NewCipher_ok key then Inl KeySizeError
      else if length (Nonce encData) \<noteq> nonceLength then Inl NonceLengthPanic
      else
        (case gcm_Open P key (Nonce encData) (Ciphertext encData) of
           None \<Rightarrow> Inl InvalidPasswordOrCorruptedData
         | Some plaintext \<Rightarrow> Inr plaintext))"

definition encryptData ::
  "primitives \<Rightarrow> SessionStore \<Rightarrow> byte list \<Rightarrow> entropy \<Rightarrow> (error + byte list) \<times> entropy" where
  "encryptData P ss data src =
     (case Encrypt P data (hex_EncodeToString (ss_encryptionKey ss)) src of
        (Inl err, src') \<Rightarrow> (Inl EncryptFailed, src')
      | (Inr encryptedData, src') \<Rightarrow>
          (case json_Marshal_EncryptedData P encryptedData of
             None \<Rightarrow> (Inl MarshalFailed, src')
           | Some encBytes \<Rightarrow> (Inr encBytes, src')))"

text \<open>In \<open>decryptSessionData\<close> every error is returned wrapped; the panic of \<open>Open\<close> is not
  an error value and passes through.\<close>

definition decryptSessionData :: "primitives \<Rightarrow> SessionStore \<Rightarrow> byte list \<Rightarrow> error + SessionData" where
  "decryptSessionData P ss encryptedData =
     (case json_Unmarshal_EncryptedData P encryptedData of
        None \<Rightarrow> Inl UnmarshalFailed
      | Some encData \<Rightarrow>
          (case Decrypt P encData (hex_EncodeToString (ss_encryptionKey ss)) of
             Inl err \<Rightarrow> (if err = NonceLengthPanic then Inl NonceLengthPanic else Inl DecryptFailed)
           | Inr decryptedData \<Rightarrow>
               (case json_Unmarshal_SessionData P decryptedData of
                  None \<Rightarrow> Inl UnmarshalFailed
                | Some sessionData \<Rightarrow> Inr sessionData)))"

definition calculateChecksum :: "primitives \<Rightarrow> byte list \<Rightarrow> string" where
  "calculateChecksum P data = hex_EncodeToString (sha256_Sum256 P data)"

definition ValidateSessionIntegrity :: "primitives \<Rightarrow> PersistedSession \<Rightarrow> bool" where
  "ValidateSessionIntegrity P session =
     (calculateChecksum P (EncryptedData session) = Checksum session)"

text \<open>
  The file system is a map from paths to contents. \<open>os.MkdirAll\<close>, \<open>os.WriteFile\<close> and
  \<open>os.Rename\<close> can fail for reasons outside the program; whether they do in one call of
  \<open>writeSessionsToFile\<close> is an input. A failed \<open>os.WriteFile\<close> is taken to leave no
  temporary file, and \<open>os.ReadFile\<close> to fail only for a path that does not exist.
\<close>

type_synonym filesystem = "string \<Rightarrow> byte list option"

record io_faults =
  mkdir_fails :: bool
  write_fails :: bool
  rename_fails :: bool

definition writeSessionsToFile ::
  "primitives \<Rightarrow> io_faults \<Rightarrow> SessionStore \<Rightarrow> PersistedSession list \<Rightarrow> filesystem
   \<Rightarrow> error option \<times> filesystem" where
  "writeSessionsToFile P io ss persisted fs =
     (if mkdir_fails io then (Some MkdirFailed, fs)
      else
        (case json_Marshal_Sessions P persisted of
           None \<Rightarrow> (Some MarshalFailed, fs)
         | Some data \<Rightarrow>
             (let tempFile = sessionFile ss @ ''.tmp'' in
              if write_fails io then (Some WriteFailed, fs)
              else if rename_fails io then (Some RenameFailed, (fs(tempFile \<mapsto> data))(tempFile := None))
              else (None, ((fs(tempFile \<mapsto> data))(sessionFile ss \<mapsto> data))(tempFile := None)))))"

definition readSessionsFromFile ::
  "primitives \<Rightarrow> SessionStore \<Rightarrow> filesystem \<Rightarrow> error + PersistedSession list" where
  "readSessionsFromFile P ss fs =
     (case fs (sessionFile ss) of
        None \<Rightarrow> Inl FileNotExist
      | Some data \<Rightarrow>
          (case json_Unmarshal_Sessions P data of
             None \<Rightarrow> Inl UnmarshalFailed
           | Some persisted \<Rightarrow> Inr persisted))"

text \<open>The body of the loop of \<open>SaveSessions\<close> for a session that is not skipped.\<close>

definition persistSession ::
  "primitives \<Rightarrow> SessionStore \<Rightarrow> WalletSession \<Rightarrow> entropy \<Rightarrow> (error + PersistedSession) \<times> entropy" where
  "persistSession P ss session src =
     (let sessionData = \<lparr> sd_WalletID = WalletID session, sd_LastActivity = LastActivity session,
                           sd_IsActive = IsActive session \<rparr>
      in case json_Marshal_SessionData P sessionData of
           None \<Rightarrow> (Inl MarshalFailed, src)
         | Some dataBytes \<Rightarrow>
             (case encryptData P ss dataBytes src of
                (Inl err, src') \<Rightarrow> (Inl err, src')
              | (Inr encryptedData, src') \<Rightarrow>
                  (Inr \<lparr> ps_WalletID = WalletID session, ps_SessionToken = SessionToken session,
                         ps_CreatedAt = CreatedAt session, ps_ExpiresAt = ExpiresAt session,
                         EncryptedData = encryptedData,
                         Checksum = calculateChecksum P encryptedData \<rparr>, src')))"

text \<open>
  The loop of \<open>SaveSessions\<close> reads the clock once for each entry of the map. Its argument
  lists the entries in the order the loop visits them, each with the reading of the clock
  taken for it.
\<close>

fun saveLoop ::
  "primitives \<Rightarrow> SessionStore \<Rightarrow> (time \<times> string \<times> WalletSession) list \<Rightarrow> PersistedSession list
   \<Rightarrow> entropy \<Rightarrow> (error + PersistedSession list) \<times> entropy" where
  "saveLoop P ss [] persistedSessions src = (Inr persistedSessions, src)"
| "saveLoop P ss ((now, walletID, session) # rest) persistedSessions src =
     (if \<not> IsActive session \<or> time_After now (ExpiresAt session)
      then saveLoop P ss rest persistedSessions src
      else
        (case persistSession P ss session src of
           (Inl err, src') \<Rightarrow> (Inl err, src')
         | (Inr persistedSession, src') \<Rightarrow>
             saveLoop P ss rest (persistedSessions @ [persistedSession]) src'))"

definition SaveSessions ::
  "primitives \<Rightarrow> io_faults \<Rightarrow> SessionStore \<Rightarrow> (time \<times> string \<times> WalletSession) list \<Rightarrow> entropy
   \<Rightarrow> filesystem \<Rightarrow> error option \<times> filesystem \<times> entropy" where
  "SaveSessions P io ss entries src fs =
     (case saveLoop P ss entries [] src of
        (Inl err, src') \<Rightarrow> (Some err, fs, src')
      | (Inr persistedSessions, src') \<Rightarrow>
          (case writeSessionsToFile P io ss persistedSessions fs of
             (err, fs') \<Rightarrow> (err, fs', src')))"

text \<open>The body of the loop of \<open>LoadSessions\<close>: \<open>Inr None\<close> is a record that is skipped,
  \<open>Inl\<close> the panic that ends the whole call.\<close>

definition restoreSession ::
  "primitives \<Rightarrow> time \<Rightarrow> SessionStore \<Rightarrow> PersistedSession \<Rightarrow> error + WalletSession option" where
  "restoreSession P now ss persistedSession =
     (if time_After now (ps_ExpiresAt persistedSession) then Inr None
      else if \<not> ValidateSessionIntegrity P persistedSession then Inr None
      else
        (case decryptSessionData P ss (EncryptedData persistedSession) of
           Inl err \<Rightarrow> (if err = NonceLengthPanic then Inl NonceLengthPanic else Inr None)
         | Inr sessionData \<Rightarrow>
             Inr (Some \<lparr> WalletID = ps_WalletID persistedSession, UnlockedWallet = None,
                          CreatedAt = ps_CreatedAt persistedSession,
                          LastActivity = sd_LastActivity sessionData,
                          ExpiresAt = ps_ExpiresAt persistedSession,
                          SessionToken = ps_SessionToken persistedSession,
                          IsActive = sd_IsActive sessionData \<rparr>)))"

fun loadLoop ::
  "primitives \<Rightarrow> time \<Rightarrow> SessionStore \<Rightarrow> PersistedSession list \<Rightarrow> (string \<times> WalletSession) list
   \<Rightarrow> error + (string \<times> WalletSession) list" where
  "loadLoop P now ss [] loaded = Inr loaded"
| "loadLoop P now ss (persistedSession # rest) loaded =
     (case restoreSession P now ss persistedSession of
        Inl err \<Rightarrow> Inl err
      | Inr None \<Rightarrow> loadLoop P now ss rest loaded
      | Inr (Some session) \<Rightarrow>
          loadLoop P now ss rest (AList.update (ps_WalletID persistedSession) session loaded))"

definition LoadSessions ::
  "primitives \<Rightarrow> time \<Rightarrow> SessionStore \<Rightarrow> filesystem \<Rightarrow> error + (string \<times> WalletSession) list" where
  "LoadSessions P now ss fs =
     (case readSessionsFromFile P ss fs of
        Inl err \<Rightarrow> (if err = FileNotExist then Inr [] else Inl ReadFailed)
      | Inr persistedSessions \<Rightarrow> loadLoop P now ss persistedSessions [])"





text \<open>The sessions that the loop of \<open>LoadSessions\<close> stores, in the order it stores them.\<close>

definition restored ::
  "primitives \<Rightarrow> time \<Rightarrow> SessionStore \<Rightarrow> PersistedSession list \<Rightarrow> (string \<times> WalletSession) list" where
  "restored P now ss persisted =
     List.map_filter
       (\<lambda>p. case restoreSession P now ss p of
               Inr (Some session) \<Rightarrow> Some (ps_WalletID p, session)
             | _ \<Rightarrow> None)
       persisted"

text \<open>The entries that the loop of \<open>SaveSessions\<close> does not skip.\<close>

definition kept :: "(time \<times> string \<times> WalletSession) list \<Rightarrow> (time \<times> string \<times> WalletSession) list" where
  "kept entries = filter (\<lambda>(now, walletID, session).
                     \<not> (\<not> IsActive session \<or> time_After now (ExpiresAt session))) entries"

section \<open>Sequences of operations\<close>

text \<open>
  The calls that change a security manager or the registry it holds, each paired in a
  trace with the instant the clock shows when it runs. \<open>step\<close> applies one call and
  discards its return value; \<open>run\<close> applies a trace from the left.
\<close>

datatype operation =
    Create Wallet entropy
  | Extend string
  | Close string
  | CloseAll
  | Cleanup
  | Activity SessionActivity
  | SetConfig SessionConfig
  | ApplyLevel SecurityLevel
  | FailedAttempt string
  | SuccessfulAttempt string

fun step :: "time \<Rightarrow> operation \<Rightarrow> SecurityManager \<Rightarrow> SecurityManager" where
  "step now (Create wallet src) S =
     S\<lparr>sessionManager := snd (CreateSession now src wallet (sessionManager S))\<rparr>"
| "step now (Extend walletID) S =
     S\<lparr>sessionManager := snd (ExtendSession now walletID (sessionManager S))\<rparr>"
| "step now (Close walletID) S =
     S\<lparr>sessionManager := snd (snd (CloseSession walletID (sessionManager S)))\<rparr>"
| "step now CloseAll S = S\<lparr>sessionManager := CloseAllSessions (sessionManager S)\<rparr>"
| "step now Cleanup S = S\<lparr>sessionManager := cleanupExpiredSessions now (sessionManager S)\<rparr>"
| "step now (Activity a) S = S\<lparr>sessionManager := handleActivity now a (sessionManager S)\<rparr>"
| "step now (SetConfig cfg) S = S\<lparr>sessionManager := UpdateConfig cfg (sessionManager S)\<rparr>"
| "step now (ApplyLevel level) S = ApplySecurityLevel level S"
| "step now (FailedAttempt walletID) S = RecordFailedAttempt now walletID S"
| "step now (SuccessfulAttempt walletID) S = RecordSuccessfulAttempt walletID S"

fun run :: "(time \<times> operation) list \<Rightarrow> SecurityManager \<Rightarrow> SecurityManager" where
  "run [] S = S"
| "run ((now, op) # rest) S = run rest (step now op S)"

text \<open>The operations that leave the configuration alone.\<close>

fun keeps_config :: "operation \<Rightarrow> bool" where
  "keeps_config (SetConfig cfg) = False"
| "keeps_config (ApplyLevel level) = False"
| "keeps_config op = True"



text \<open>Two wallets and a freshly constructed manager, for the concrete runs below. The
  second wallet holds a mnemonic and no private key.\<close>

definition wallet1 :: Wallet where
  "wallet1 = \<lparr> ID = ''W1'', Name = ''main'', Address = ''0x01'',
               Mnemonic = ''abandon ability able'', PrivateKey = Some \<lparr> D = Some 123456789 \<rparr>,
               wallet_CreatedAt = 0, IsEncrypted = False, CachedBalance = None, LastSync = 0 \<rparr>"

definition wallet2 :: Wallet where
  "wallet2 = \<lparr> ID = ''W2'', Name = ''watch'', Address = ''0x02'',
               Mnemonic = ''abandon ability able'', PrivateKey = None,
               wallet_CreatedAt = 0, IsEncrypted = False, CachedBalance = None, LastSync = 0 \<rparr>"

definition fresh_manager :: SecurityManager where
  "fresh_manager =
     \<lparr> sessionManager = NewSessionManager,
       attemptTracker = \<lparr> attempts = [], lockoutDuration = 15 * Minute, maxAttempts = 3 \<rparr>,
       encryptionKey = replicate 32 0 \<rparr>"

section \<open>Invariants of the registry\<close>



text \<open>The registry is well formed when the keys of \<open>sessions\<close> are distinct, as the keys
  of a Go map are, every stored session sits under its own wallet identity and carries
  the active flag, and no more sessions are stored than the configuration allows.\<close>

definition registry_ok :: "SessionManager \<Rightarrow> bool" where
  "registry_ok sm \<longleftrightarrow>
     distinct (map fst (sessions sm))
   \<and> (\<forall>(k, s) \<in> set (sessions sm). IsActive s \<and> WalletID s = k)
   \<and> int (length (sessions sm)) \<le> MaxSessions (config sm)"

text \<open>The number of stored sessions that carry the active flag.\<close>

definition active_count :: "SessionManager \<Rightarrow> nat" where
  "active_count sm = length (filter (\<lambda>(k, s). IsActive s) (sessions sm))"

section \<open>A concrete store\<close>

text \<open>
  A store, two sessions and a set of stand-ins for the library functions, for the concrete
  runs below: the JSON codec for session data accepts the data of the two sessions only,
  the codec for encrypted data writes salt, nonce and ciphertext one after the other, the
  codec for lists of records accepts two lists only, the key derived from a password and a
  salt is the salt, sealing returns the plaintext, and the hash of a byte string is the
  byte string.
\<close>

definition demo_store :: SessionStore where
  "demo_store = \<lparr> ss_encryptionKey = [], sessionFile = ''sessions.enc'' \<rparr>"

definition demo_io :: io_faults where
  "demo_io = \<lparr> mkdir_fails = False, write_fails = False, rename_fails = False \<rparr>"

definition demo_session1 :: WalletSession where
  "demo_session1 = \<lparr> WalletID = ''W1'', UnlockedWallet = Some wallet1, CreatedAt = 0,
                      LastActivity = 5, ExpiresAt = 300, SessionToken = ''aa'', IsActive = True \<rparr>"

definition demo_session2 :: WalletSession where
  "demo_session2 = \<lparr> WalletID = ''W2'', UnlockedWallet = Some wallet2, CreatedAt = 1,
                      LastActivity = 6, ExpiresAt = 400, SessionToken = ''bb'', IsActive = True \<rparr>"

definition demo_payload :: "byte \<Rightarrow> byte list" where
  "demo_payload n = replicate 32 0 @ replicate 12 0 @ [n]"

definition demo_record1 :: PersistedSession where
  "demo_record1 = \<lparr> ps_WalletID = ''W1'', ps_SessionToken = ''aa'', ps_CreatedAt = 0,
                     ps_ExpiresAt = 300, EncryptedData = demo_payload 1,
                     Checksum = hex_EncodeToString (demo_payload 1) \<rparr>"

definition demo_record2 :: PersistedSession where
  "demo_record2 = \<lparr> ps_WalletID = ''W2'', ps_SessionToken = ''bb'', ps_CreatedAt = 1,
                     ps_ExpiresAt = 400, EncryptedData = demo_payload 2,
                     Checksum = hex_EncodeToString (demo_payload 2) \<rparr>"

definition demo_persisted :: "PersistedSession list" where
  "demo_persisted = [demo_record1, demo_record2]"

definition demo_tampered :: "PersistedSession list" where
  "demo_tampered =
     demo_persisted[0 := (demo_persisted ! 0)\<lparr>EncryptedData :=
                            (EncryptedData (demo_persisted ! 0))[44 := 9]\<rparr>]"

definition demo_primitives :: primitives where
  "demo_primitives =
     \<lparr> json_Marshal_SessionData =
         (\<lambda>d. if d = \<lparr> sd_WalletID = ''W1'', sd_LastActivity = 5, sd_IsActive = True \<rparr> then Some [1]
               else if d = \<lparr> sd_WalletID = ''W2'', sd_LastActivity = 6, sd_IsActive = True \<rparr>
               then Some [2] else None),
       json_Unmarshal_SessionData =
         (\<lambda>b. if b = [1] then Some \<lparr> sd_WalletID = ''W1'', sd_LastActivity = 5, sd_IsActive = True \<rparr>
               else if b = [2]
               then Some \<lparr> sd_WalletID = ''W2'', sd_LastActivity = 6, sd_IsActive = True \<rparr>
               else None),
       json_Marshal_EncryptedData =
         (\<lambda>e. if length (Salt e) = 32 \<and> length (Nonce e) = 12
               then Some (Salt e @ Nonce e @ Ciphertext e) else None),
       json_Unmarshal_EncryptedData =
         (\<lambda>b. if 44 \<le> length b
               then Some \<lparr> Salt = take 32 b, Nonce = take 12 (drop 32 b), Ciphertext = drop 44 b \<rparr>
               else None),
       json_Marshal_Sessions =
         (\<lambda>l. if l = demo_persisted then Some [7]
               else if l = demo_tampered then Some [8] else None),
       json_Unmarshal_Sessions =
         (\<lambda>b. if b = [7] then Some demo_persisted
               else if b = [8] then Some demo_tampered else None),
       pbkdf2_Key = (\<lambda>password salt. salt),
       gcm_Seal = (\<lambda>key nonce plaintext. plaintext),
       gcm_Open = (\<lambda>key nonce ciphertext. Some ciphertext),
       sha256_Sum256 = (\<lambda>data. data) \<rparr>"

section \<open>Properties of the hexadecimal codec\<close>

lemma hextable_is_hex: "k < 16 \<Longrightarrow> is_hex_char (hextable ! k)"
proof -
  assume "k < 16"
  then have "k \<in> {0,1,2,3,4,5,6,7,8,9,10,11,12,13,14,15}" by simp arith
  then show ?thesis
    by (auto simp: hextable_def is_hex_char_def fromHexChar_def)
qed

lemma high_nibble_less: "unat (drop_bit 4 (v::byte)) < 16"
proof -
  have "unat v < 256" using unsigned_less [of v] by simp
  then show ?thesis by (simp add: unat_drop_bit_eq drop_bit_eq_div unat_div)
qed

lemma low_nibble_less: "unat ((v::byte) AND 0x0f) < 16"
proof -
  have "v AND 0x0f \<le> 0x0f" by (rule word_and_le1)
  then have "unat (v AND 0x0f) \<le> unat (0x0f :: byte)" by (simp add: word_le_nat_alt)
  then show ?thesis by simp
qed

lemma length_hex_EncodeToString: "length (hex_EncodeToString bs) = 2 * length bs"
  by (induction bs) (simp_all add: hex_EncodeToString_def)

lemma hex_EncodeToString_all_hex: "c \<in> set (hex_EncodeToString bs) \<Longrightarrow> is_hex_char c"
  by (induction bs)
     (auto simp: hex_EncodeToString_def hextable_is_hex high_nibble_less low_nibble_less)

lemma hex_DecodeString_ok_iff:
  "(\<exists>bs. hex_DecodeString s = Inr bs) \<longleftrightarrow> even (length s) \<and> (\<forall>c \<in> set s. is_hex_char c)"
  by (induction s rule: hex_DecodeString.induct)
     (auto simp: is_hex_char_def split: option.splits sum.splits)

lemma ValidateSessionToken_iff:
  "ValidateSessionToken s \<longleftrightarrow> length s = 64 \<and> (\<forall>c \<in> set s. is_hex_char c)"
proof (cases "length s = 64")
  case True
  then have ev: "even (length s)" by simp
  have "ValidateSessionToken s \<longleftrightarrow> (\<exists>bs. hex_DecodeString s = Inr bs)"
    using True by (auto simp: ValidateSessionToken_def split: sum.splits)
  with ev True show ?thesis by (simp add: hex_DecodeString_ok_iff)
next
  case False
  then show ?thesis by (simp add: ValidateSessionToken_def)
qed

section \<open>Generated tokens pass the format check\<close>

text \<open>
  C10. Both token generators succeed whenever the random source delivers 32 bytes, and
  return the hexadecimal encoding of those bytes. Every token either of them returns has
  64 characters, all of them hexadecimal digits, and \<open>ValidateSessionToken\<close> accepts it.
  \<open>ValidateSessionToken\<close> rejects every string whose length is not 64 or that contains
  a character that is not a hexadecimal digit.
\<close>

theorem generated_token_valid:
  "(\<forall>src. 32 \<le> length src \<longrightarrow>
      fst (generateSessionToken src) = Inr (hex_EncodeToString (take 32 src))
    \<and> fst (GenerateSessionToken src) = Inr (hex_EncodeToString (take 32 src)))
   \<and> (\<forall>src tok. fst (generateSessionToken src) = Inr tok \<or> fst (GenerateSessionToken src) = Inr tok \<longrightarrow>
        length tok = 64 \<and> (\<forall>c \<in> set tok. is_hex_char c) \<and> ValidateSessionToken tok)
   \<and> (\<forall>s. length s \<noteq> 64 \<or> (\<exists>c \<in> set s. \<not> is_hex_char c) \<longrightarrow> \<not> ValidateSessionToken s)"
proof (intro conjI allI impI)
  fix src :: entropy assume "32 \<le> length src"
  then show "fst (generateSessionToken src) = Inr (hex_EncodeToString (take 32 src))"
    by (simp add: generateSessionToken_def rand_Read_def)
next
  fix src :: entropy assume "32 \<le> length src"
  then show "fst (GenerateSessionToken src) = Inr (hex_EncodeToString (take 32 src))"
    by (simp add: GenerateSessionToken_def rand_Read_def)
next
  fix src tok
  assume "fst (generateSessionToken src) = Inr tok \<or> fst (GenerateSessionToken src) = Inr tok"
  then have tok: "tok = hex_EncodeToString (take 32 src)" and len: "32 \<le> length src"
    by (auto simp: generateSessionToken_def GenerateSessionToken_def rand_Read_def split: if_splits)
  from tok len have l: "length tok = 64" by (simp add: length_hex_EncodeToString)
  from tok have h: "\<forall>c \<in> set tok. is_hex_char c" by (simp add: hex_EncodeToString_all_hex)
  from l h show "length tok = 64" "\<forall>c \<in> set tok. is_hex_char c" "ValidateSessionToken tok"
    by (simp_all add: ValidateSessionToken_iff)
next
  fix s assume "length s \<noteq> 64 \<or> (\<exists>c \<in> set s. \<not> is_hex_char c)"
  then show "\<not> ValidateSessionToken s" by (auto simp: ValidateSessionToken_iff)
qed

theorem generated_token_valid_witness:
  "32 \<le> length (replicate 32 (0xa5::byte))
   \<and> fst (generateSessionToken (replicate 32 0xa5)) = Inr (concat (replicate 32 ''a5''))
   \<and> ValidateSessionToken (concat (replicate 32 ''a5''))
   \<and> length ''a5'' \<noteq> 64 \<and> \<not> ValidateSessionToken ''a5''"
proof -
  have len: "32 \<le> length (replicate 32 (0xa5::byte))" by simp
  have e: "hex_EncodeToString (take 32 (replicate 32 (0xa5::byte))) = concat (replicate 32 ''a5'')"
    by (simp add: hex_EncodeToString_def hextable_def drop_bit_eq_div)
  have g: "fst (generateSessionToken (replicate 32 0xa5)) = Inr (concat (replicate 32 ''a5''))"
    using generated_token_valid [THEN conjunct1, rule_format, OF len] e by simp
  have v: "ValidateSessionToken (concat (replicate 32 ''a5''))"
    using generated_token_valid [THEN conjunct2, THEN conjunct1, rule_format, OF disjI1, OF g] by simp
  have n: "\<not> ValidateSessionToken ''a5''"
    using generated_token_valid [THEN conjunct2, THEN conjunct2, rule_format, of "''a5''"] by simp
  from len g v n show ?thesis by simp
qed

section \<open>The attempt tracker: lockout after repeated failures\<close>

text \<open>
  C9. With the threshold at 3, three calls of \<open>RecordFailedAttempt\<close> for an identity that
  has no record, at the instants \<open>t1\<close>, \<open>t2\<close> and \<open>t3\<close>, leave the identity locked until
  one minute after \<open>t3\<close>: \<open>IsAccountLocked\<close> is true at \<open>t3\<close> and at every instant before
  \<open>t3\<close> plus one minute, \<open>GetRemainingLockoutTime\<close> is one minute at \<open>t3\<close>, is what is left
  of that minute at every later instant, and is never negative. \<open>RecordSuccessfulAttempt\<close>
  in any state deletes the record of the identity, and \<open>IsAccountLocked\<close> is false at every
  instant after it.
\<close>

theorem three_failures_lock_one_minute:
  fixes sm :: SecurityManager and w :: string and t1 t2 t3 :: time
  assumes thr: "maxAttempts (attemptTracker sm) = 3"
      and fresh: "map_of (attempts (attemptTracker sm)) w = None"
  defines "sm3 \<equiv> RecordFailedAttempt t3 w (RecordFailedAttempt t2 w (RecordFailedAttempt t1 w sm))"
  shows "IsAccountLocked t3 w sm3
       \<and> GetRemainingLockoutTime t3 w sm3 = 1 * Minute
       \<and> (\<forall>now. IsAccountLocked now w sm3 \<longleftrightarrow> now < t3 + 1 * Minute)
       \<and> (\<forall>now. 0 \<le> GetRemainingLockoutTime now w sm3)
       \<and> (\<forall>now. t3 \<le> now \<longrightarrow>
              GetRemainingLockoutTime now w sm3 = max 0 (1 * Minute - (now - t3)))
       \<and> (\<forall>S now. \<not> IsAccountLocked now w (RecordSuccessfulAttempt w S)
                 \<and> map_of (attempts (attemptTracker (RecordSuccessfulAttempt w S))) w = None)"
proof -
  have rec: "map_of (attempts (attemptTracker sm3)) w
             = Some \<lparr> Count = 3, LastAttempt = t3, LockedUntil = t3 + 1 * Minute, IPAddress = [] \<rparr>"
    using thr fresh
    by (simp add: sm3_def RecordFailedAttempt_def Let_def update_conv' calculateLockoutDuration_def
                  time_Add_def)
  have del: "map_of (attempts (attemptTracker (RecordSuccessfulAttempt w S))) w = None" for S
    by (simp add: RecordSuccessfulAttempt_def delete_conv')
  have rem: "GetRemainingLockoutTime now w sm3 = max 0 (time_Sub (t3 + 1 * Minute) now)" for now
    using rec by (simp add: GetRemainingLockoutTime_def time_Until_def Let_def max_def)
  show ?thesis
  proof (intro conjI allI impI)
    show "IsAccountLocked t3 w sm3"
      using rec by (simp add: IsAccountLocked_def time_Before_def Minute_def Second_def Millisecond_def)
    show "GetRemainingLockoutTime t3 w sm3 = 1 * Minute"
      by (simp add: rem time_Sub_def Minute_def Second_def Millisecond_def maxDuration_def minDuration_def)
    show "IsAccountLocked now w sm3 \<longleftrightarrow> now < t3 + 1 * Minute" for now
      using rec by (simp add: IsAccountLocked_def time_Before_def)
    show "0 \<le> GetRemainingLockoutTime now w sm3" for now
      by (simp add: rem)
    show "GetRemainingLockoutTime now w sm3 = max 0 (1 * Minute - (now - t3))" if "t3 \<le> now" for now
    proof -
      have "time_Sub (t3 + 1 * Minute) now = 1 * Minute - (now - t3) \<or>
            (time_Sub (t3 + 1 * Minute) now = minDuration \<and> 1 * Minute - (now - t3) < minDuration)"
        using that by (auto simp: time_Sub_def Minute_def Second_def Millisecond_def maxDuration_def minDuration_def)
      then show ?thesis unfolding rem by (auto simp: minDuration_def max_def)
    qed
    show "\<not> IsAccountLocked now w (RecordSuccessfulAttempt w S)" for S now
      using del [of S] by (simp add: IsAccountLocked_def)
    show "map_of (attempts (attemptTracker (RecordSuccessfulAttempt w S))) w = None" for S
      by (rule del)
  qed
qed

theorem three_failures_lock_one_minute_witness:
  "(case NewSecurityManager NewSessionManager (replicate 32 0) of
      None \<Rightarrow> False
    | Some sm \<Rightarrow>
        maxAttempts (attemptTracker sm) = 3
      \<and> map_of (attempts (attemptTracker sm)) ''W1'' = None
      \<and> (let sm3 = RecordFailedAttempt 3000 ''W1''
                        (RecordFailedAttempt 2000 ''W1'' (RecordFailedAttempt 1000 ''W1'' sm))
         in IsAccountLocked 3000 ''W1'' sm3
          \<and> GetRemainingLockoutTime 3000 ''W1'' sm3 = 60000000000
          \<and> \<not> IsAccountLocked 3000 ''W1'' (RecordSuccessfulAttempt ''W1'' sm3)))"
proof -
  define sm where "sm = \<lparr> sessionManager = NewSessionManager,
       attemptTracker = \<lparr> attempts = [], lockoutDuration = 15 * Minute, maxAttempts = 3 \<rparr>,
       encryptionKey = replicate 32 (0::byte) \<rparr>"
  have new: "NewSecurityManager NewSessionManager (replicate 32 0) = Some sm"
    by (simp add: NewSecurityManager_def rand_Read_def sm_def)
  have thr: "maxAttempts (attemptTracker sm) = 3" by (simp add: sm_def)
  have fresh: "map_of (attempts (attemptTracker sm)) ''W1'' = None" by (simp add: sm_def)
  have min: "Minute = (60000000000::int)" by (simp add: Minute_def Second_def Millisecond_def)
  show ?thesis
    using three_failures_lock_one_minute [OF thr fresh, of 3000 2000 1000] new thr fresh
    by (simp add: min)
qed

text \<open>
  C1. After \<open>ApplySecurityLevel\<close> with the level \<open>max\<close> the tracker holds a threshold of 1
  and a lockout duration of one hour. One call of \<open>RecordFailedAttempt\<close> for an identity
  without a record then locks the identity, and the remaining lockout read at the same
  instant is one minute, not one hour: \<open>RecordFailedAttempt\<close> takes the duration from
  \<open>calculateLockoutDuration\<close>, which reads the failure count and never the configured
  \<open>lockoutDuration\<close>.
\<close>

theorem max_level_first_failure_locks_one_minute:
  "(case NewSecurityManager NewSessionManager (replicate 32 0) of
      None \<Rightarrow> False
    | Some sm \<Rightarrow>
        (let sm1 = RecordFailedAttempt 1000 ''W1'' (ApplySecurityLevel SecurityMax sm)
         in maxAttempts (attemptTracker sm1) = 1
          \<and> lockoutDuration (attemptTracker sm1) = 1 * Hour
          \<and> IsAccountLocked 1000 ''W1'' sm1
          \<and> GetRemainingLockoutTime 1000 ''W1'' sm1 = 1 * Minute
          \<and> GetRemainingLockoutTime 1000 ''W1'' sm1 \<noteq> 1 * Hour))"
  by (simp add: NewSecurityManager_def rand_Read_def ApplySecurityLevel_def SecurityMax_def
        SecurityLow_def SecurityMedium_def SecurityHigh_def UpdateAttemptTrackerConfig_def
        UpdateConfig_def RecordFailedAttempt_def Let_def calculateLockoutDuration_def
        IsAccountLocked_def GetRemainingLockoutTime_def time_Until_def time_Sub_def time_Add_def
        time_Before_def Hour_def Minute_def Second_def Millisecond_def maxDuration_def
        minDuration_def)

section \<open>The session registry: capacity\<close>

lemma length_update_alist:
  "length (AList.update k v al) = (if k \<in> fst ` set al then length al else Suc (length al))"
  by (induction al) auto

lemma set_update_alist:
  "x \<in> set (AList.update k v al) \<Longrightarrow> x = (k, v) \<or> x \<in> set al"
  by (induction al) (auto split: if_splits)

lemma set_delete_alist: "x \<in> set (AList.delete k al) \<Longrightarrow> x \<in> set al"
  by (induction al) (auto split: if_splits)

lemma map_of_Some_in_keys: "map_of al k = Some v \<Longrightarrow> k \<in> fst ` set al"
  by (metis map_of_eq_None_iff option.distinct(1))

lemma CreateSession_full:
  "int (length (sessions sm)) \<ge> MaxSessions (config sm) \<Longrightarrow>
   CreateSession now src wallet sm = (Inl MaxSessionsReached, sm)"
  by (simp add: CreateSession_def)

lemma CreateSession_room:
  assumes "int (length (sessions sm)) < MaxSessions (config sm)" and "32 \<le> length src"
  shows "CreateSession now src wallet sm =
           (Inr \<lparr> WalletID = ID wallet, UnlockedWallet = Some wallet, CreatedAt = now,
                  LastActivity = now, ExpiresAt = now + DefaultTimeout (config sm),
                  SessionToken = hex_EncodeToString (take 32 src), IsActive = True \<rparr>,
            sm\<lparr>sessions := AList.update (ID wallet)
                   \<lparr> WalletID = ID wallet, UnlockedWallet = Some wallet, CreatedAt = now,
                     LastActivity = now, ExpiresAt = now + DefaultTimeout (config sm),
                     SessionToken = hex_EncodeToString (take 32 src), IsActive = True \<rparr>
                   (sessions sm)\<rparr>)"
  using assms
  by (simp add: CreateSession_def generateSessionToken_def rand_Read_def time_Add_def Let_def)

lemma CreateSession_ok:
  assumes "registry_ok sm"
  shows "registry_ok (snd (CreateSession now src wallet sm))"
proof (cases "int (length (sessions sm)) \<ge> MaxSessions (config sm)")
  case True
  then show ?thesis using assms by (simp add: CreateSession_def)
next
  case False
  show ?thesis
  proof (cases "fst (generateSessionToken src)")
    case (Inl e)
    then show ?thesis using assms False by (simp add: CreateSession_def)
  next
    case (Inr token)
    then show ?thesis using assms False
      by (auto simp: CreateSession_def registry_ok_def Let_def distinct_update
            length_update_alist dest!: set_update_alist)
  qed
qed

lemma ExtendSession_ok:
  assumes "registry_ok sm"
  shows "registry_ok (snd (ExtendSession now walletID sm))"
proof (cases "map_of (sessions sm) walletID")
  case None
  then show ?thesis using assms by (simp add: ExtendSession_def)
next
  case (Some s)
  then have k: "walletID \<in> fst ` set (sessions sm)" by (rule map_of_Some_in_keys)
  from Some have m: "(walletID, s) \<in> set (sessions sm)" by (rule map_of_SomeD)
  show ?thesis using assms Some k m
    by (auto simp: ExtendSession_def registry_ok_def Let_def distinct_update
          length_update_alist dest!: set_update_alist)
qed

lemma handleActivity_ok:
  assumes "registry_ok sm"
  shows "registry_ok (handleActivity now a sm)"
proof (cases "map_of (sessions sm) (act_WalletID a)")
  case None
  then show ?thesis using assms by (simp add: handleActivity_def)
next
  case (Some s)
  then have k: "act_WalletID a \<in> fst ` set (sessions sm)" by (rule map_of_Some_in_keys)
  from Some have m: "(act_WalletID a, s) \<in> set (sessions sm)" by (rule map_of_SomeD)
  show ?thesis using assms Some k m
    by (auto simp: handleActivity_def registry_ok_def Let_def distinct_update
          length_update_alist dest!: set_update_alist)
qed

lemma CloseSession_ok:
  assumes "registry_ok sm"
  shows "registry_ok (snd (snd (CloseSession walletID sm)))"
proof (cases "map_of (sessions sm) walletID")
  case None
  then show ?thesis using assms by (simp add: CloseSession_def)
next
  case (Some s)
  have "length (AList.delete walletID (sessions sm)) \<le> length (sessions sm)"
    by (rule length_delete_le)
  then show ?thesis using assms Some
    by (auto simp: CloseSession_def registry_ok_def Let_def distinct_delete
          dest!: set_delete_alist)
qed

lemma cleanupExpiredSessions_ok:
  assumes "registry_ok sm"
  shows "registry_ok (cleanupExpiredSessions now sm)"
proof -
  define kept where
    "kept = filter (\<lambda>(walletID, session). \<not> time_After now (ExpiresAt session)) (sessions sm)"
  have s: "sessions (cleanupExpiredSessions now sm) = kept"
    and c: "config (cleanupExpiredSessions now sm) = config sm"
    by (simp_all add: cleanupExpiredSessions_def kept_def)
  have "length kept \<le> length (sessions sm)" unfolding kept_def by (rule length_filter_le)
  moreover have "distinct (map fst kept)"
    using assms unfolding kept_def registry_ok_def by (simp add: distinct_map_filter)
  moreover have "set kept \<subseteq> set (sessions sm)" unfolding kept_def by auto
  ultimately show ?thesis using assms unfolding registry_ok_def s c by fastforce
qed

lemma step_ok:
  assumes "registry_ok (sessionManager S)" and "keeps_config op"
  shows "registry_ok (sessionManager (step now op S))"
  using assms
  by (cases op)
     (simp_all add: CreateSession_ok ExtendSession_ok CloseSession_ok cleanupExpiredSessions_ok
        handleActivity_ok RecordFailedAttempt_def RecordSuccessfulAttempt_def Let_def,
      simp_all add: CloseAllSessions_def registry_ok_def)

lemma step_config:
  "keeps_config op \<Longrightarrow> config (sessionManager (step now op S)) = config (sessionManager S)"
  by (cases op)
     (auto simp: CreateSession_def ExtendSession_def CloseSession_def CloseAllSessions_def
        cleanupExpiredSessions_def handleActivity_def RecordFailedAttempt_def
        RecordSuccessfulAttempt_def Let_def split: sum.splits option.splits)

lemma run_ok:
  "registry_ok (sessionManager S) \<Longrightarrow> \<forall>(t, op) \<in> set tr. keeps_config op \<Longrightarrow>
   registry_ok (sessionManager (run tr S)) \<and>
   config (sessionManager (run tr S)) = config (sessionManager S)"
proof (induction tr arbitrary: S)
  case Nil
  then show ?case by simp
next
  case (Cons x tr)
  obtain t op where x: "x = (t, op)" by (cases x)
  from Cons.prems x have k: "keeps_config op" by simp
  have "registry_ok (sessionManager (step t op S))"
    using Cons.prems(1) k by (rule step_ok)
  moreover from Cons.prems(2) have "\<forall>(t, op) \<in> set tr. keeps_config op" by simp
  ultimately show ?case using Cons.IH [of "step t op S"] x k by (simp add: step_config)
qed


lemma active_count_all:
  "\<forall>(k, s) \<in> set (sessions sm). IsActive s \<Longrightarrow> active_count sm = length (sessions sm)"
  by (auto simp: active_count_def intro!: arg_cong [where f = length] filter_True)

text \<open>
  C4. In a registry whose stored sessions all carry the active flag, \<open>CreateSession\<close>
  returns the error for a full registry and leaves the registry as it was when the number
  of active sessions has reached \<open>MaxSessions\<close>. When it has not, and the random source
  delivers 32 bytes, \<open>CreateSession\<close> returns a session whose token is the hexadecimal
  encoding of those bytes and whose expiry is \<open>now\<close> plus the default timeout, and stores
  it under the wallet's identity. From a well-formed registry, every sequence of
  operations that leaves the configuration alone (creating, closing, extending, sweeping)
  ends in a well-formed registry with the same configuration, so the registry never holds
  more than \<open>MaxSessions\<close> sessions.
\<close>

theorem create_session_capacity:
  "(\<forall>now src wallet sm.
      (\<forall>(k, s) \<in> set (sessions sm). IsActive s)
      \<and> MaxSessions (config sm) \<le> int (active_count sm) \<longrightarrow>
      CreateSession now src wallet sm = (Inl MaxSessionsReached, sm))
   \<and> (\<forall>now src wallet sm.
      (\<forall>(k, s) \<in> set (sessions sm). IsActive s)
      \<and> int (active_count sm) < MaxSessions (config sm) \<and> 32 \<le> length src \<longrightarrow>
      (\<exists>session sm'.
          CreateSession now src wallet sm = (Inr session, sm')
        \<and> session = \<lparr> WalletID = ID wallet, UnlockedWallet = Some wallet, CreatedAt = now,
                       LastActivity = now, ExpiresAt = now + DefaultTimeout (config sm),
                       SessionToken = hex_EncodeToString (take 32 src), IsActive = True \<rparr>
        \<and> sm' = sm\<lparr>sessions := AList.update (ID wallet) session (sessions sm)\<rparr>
        \<and> map_of (sessions sm') (ID wallet) = Some session))
   \<and> (\<forall>S tr.
      registry_ok (sessionManager S) \<and> (\<forall>(t, op) \<in> set tr. keeps_config op) \<longrightarrow>
        registry_ok (sessionManager (run tr S))
      \<and> config (sessionManager (run tr S)) = config (sessionManager S)
      \<and> int (length (sessions (sessionManager (run tr S)))) \<le> MaxSessions (config (sessionManager S))
      \<and> int (active_count (sessionManager (run tr S))) \<le> MaxSessions (config (sessionManager S)))"
proof (intro conjI allI impI)
  fix now :: time and src :: entropy and wallet :: Wallet and sm :: SessionManager
  assume a: "(\<forall>(k, s) \<in> set (sessions sm). IsActive s) \<and> MaxSessions (config sm) \<le> int (active_count sm)"
  then have act: "\<forall>(k, s) \<in> set (sessions sm). IsActive s" by (rule conjunct1)
  from a have "MaxSessions (config sm) \<le> int (length (sessions sm))"
    unfolding active_count_all [OF act] by (rule conjunct2)
  then show "CreateSession now src wallet sm = (Inl MaxSessionsReached, sm)"
    by (rule CreateSession_full)
next
  fix now :: time and src :: entropy and wallet :: Wallet and sm :: SessionManager
  assume a: "(\<forall>(k, s) \<in> set (sessions sm). IsActive s)
      \<and> int (active_count sm) < MaxSessions (config sm) \<and> 32 \<le> length src"
  then have act: "\<forall>(k, s) \<in> set (sessions sm). IsActive s" by (rule conjunct1)
  from a have r: "int (length (sessions sm)) < MaxSessions (config sm)" and l: "32 \<le> length src"
    unfolding active_count_all [OF act] by blast+
  show "\<exists>session sm'.
          CreateSession now src wallet sm = (Inr session, sm')
        \<and> session = \<lparr> WalletID = ID wallet, UnlockedWallet = Some wallet, CreatedAt = now,
                       LastActivity = now, ExpiresAt = now + DefaultTimeout (config sm),
                       SessionToken = hex_EncodeToString (take 32 src), IsActive = True \<rparr>
        \<and> sm' = sm\<lparr>sessions := AList.update (ID wallet) session (sessions sm)\<rparr>
        \<and> map_of (sessions sm') (ID wallet) = Some session"
    by (simp add: CreateSession_room [OF r l] update_conv')
next
  fix S :: SecurityManager and tr :: "(time \<times> operation) list"
  assume a: "registry_ok (sessionManager S) \<and> (\<forall>(t, op) \<in> set tr. keeps_config op)"
  then have ok: "registry_ok (sessionManager (run tr S))"
    and cfg: "config (sessionManager (run tr S)) = config (sessionManager S)"
    using run_ok [of S tr] by simp_all
  from ok have act: "\<forall>(k, s) \<in> set (sessions (sessionManager (run tr S))). IsActive s"
    by (auto simp: registry_ok_def)
  from ok cfg have len: "int (length (sessions (sessionManager (run tr S)))) \<le> MaxSessions (config (sessionManager S))"
    by (simp add: registry_ok_def)
  from ok show "registry_ok (sessionManager (run tr S))" .
  from cfg show "config (sessionManager (run tr S)) = config (sessionManager S)" .
  from len show "int (length (sessions (sessionManager (run tr S)))) \<le> MaxSessions (config (sessionManager S))" .
  from len show "int (active_count (sessionManager (run tr S))) \<le> MaxSessions (config (sessionManager S))"
    unfolding active_count_all [OF act] .
qed


theorem create_session_capacity_witness:
  "registry_ok (sessionManager fresh_manager)
   \<and> list_all (keeps_config \<circ> snd)
        [(0, Create wallet1 (replicate 32 0)), (5, Create wallet2 (replicate 32 1)),
         (9, Close ''W1'')]
   \<and> int (length (sessions (sessionManager
          (run [(0, Create wallet1 (replicate 32 0)), (5, Create wallet2 (replicate 32 1)),
                (9, Close ''W1'')] fresh_manager)))) \<le> 5
   \<and> int (active_count NewSessionManager) < MaxSessions (config NewSessionManager)
   \<and> fst (CreateSession 0 (replicate 32 0) wallet1 NewSessionManager)
       = Inr \<lparr> WalletID = ''W1'', UnlockedWallet = Some wallet1, CreatedAt = 0,
                LastActivity = 0, ExpiresAt = 300000000000,
                SessionToken = concat (replicate 32 ''00''), IsActive = True \<rparr>
   \<and> MaxSessions (config (NewSessionManager\<lparr>config := (config NewSessionManager)\<lparr>MaxSessions := 0\<rparr>\<rparr>))
       \<le> int (active_count (NewSessionManager\<lparr>config := (config NewSessionManager)\<lparr>MaxSessions := 0\<rparr>\<rparr>))
   \<and> fst (CreateSession 0 (replicate 32 0) wallet1
            (NewSessionManager\<lparr>config := (config NewSessionManager)\<lparr>MaxSessions := 0\<rparr>\<rparr>))
       = Inl MaxSessionsReached"
proof -
  let ?tr = "[(0, Create wallet1 (replicate 32 0)), (5, Create wallet2 (replicate 32 1)),
              (9::time, Close ''W1'')]"
  let ?full = "NewSessionManager\<lparr>config := (config NewSessionManager)\<lparr>MaxSessions := 0\<rparr>\<rparr>"
  have ok: "registry_ok (sessionManager fresh_manager)"
    by (simp add: registry_ok_def fresh_manager_def NewSessionManager_def)
  have keeps: "\<forall>(t, op) \<in> set ?tr. keeps_config op" by simp
  have max: "MaxSessions (config (sessionManager fresh_manager)) = 5"
    by (simp add: fresh_manager_def NewSessionManager_def)
  have a1: "(\<forall>(k, s) \<in> set (sessions ?full). IsActive s)
      \<and> MaxSessions (config ?full) \<le> int (active_count ?full)"
    by (simp add: NewSessionManager_def active_count_def)
  have a2: "(\<forall>(k, s) \<in> set (sessions NewSessionManager). IsActive s)
      \<and> int (active_count NewSessionManager) < MaxSessions (config NewSessionManager)
      \<and> 32 \<le> length (replicate 32 (0::byte))"
    by (simp add: NewSessionManager_def active_count_def)
  have h: "hex_EncodeToString (take 32 (replicate 32 (0::byte))) = concat (replicate 32 ''00'')"
    by (simp add: hex_EncodeToString_def hextable_def)
  have t: "DefaultTimeout (config NewSessionManager) = 300000000000"
    by (simp add: NewSessionManager_def Minute_def Second_def Millisecond_def)
  note c1 = create_session_capacity [THEN conjunct1, rule_format, OF a1, of 0 "replicate 32 0" wallet1]
  note c2 = create_session_capacity [THEN conjunct2, THEN conjunct1, rule_format, OF a2, of 0 wallet1]
  note c3 = create_session_capacity [THEN conjunct2, THEN conjunct2, rule_format, OF conjI, OF ok keeps]
  from c2 have c2': "fst (CreateSession 0 (replicate 32 0) wallet1 NewSessionManager)
       = Inr \<lparr> WalletID = ''W1'', UnlockedWallet = Some wallet1, CreatedAt = 0,
                LastActivity = 0, ExpiresAt = 300000000000,
                SessionToken = concat (replicate 32 ''00''), IsActive = True \<rparr>"
    unfolding h t by (auto simp: wallet1_def)
  have keeps': "list_all (keeps_config \<circ> snd) ?tr" by simp
  show ?thesis using ok keeps' c1 c2' c3 a1 a2 unfolding max by simp
qed

section \<open>The session registry: expiry\<close>


















lemmas run_simps =
  fresh_manager_def NewSessionManager_def wallet1_def wallet2_def CreateSession_def
  ExtendSession_def CloseSession_def clearSensitiveData_def generateSessionToken_def
  rand_Read_def hex_EncodeToString_def hextable_def time_Add_def time_After_def
  ApplySecurityLevel_def SecurityMax_def SecurityLow_def SecurityMedium_def SecurityHigh_def
  UpdateAttemptTrackerConfig_def UpdateConfig_def GetSession_def ValidateSession_def
  Hour_def Minute_def Second_def Millisecond_def Let_def


text \<open>
  Why the amended statement leaves the recovery manager out: \<open>RecoverFromCorruption\<close> and
  \<open>HandleCrashRecovery\<close> store loaded sessions with \<open>sessions[walletID] = session\<close>, which
  is \<open>AList.update\<close> on the map of the registry. A session stored so that expires thirty
  minutes from instant 0, in a registry with the default timeout of five minutes, is moved
  back to six minutes by \<open>ExtendSession\<close> at one minute, with no change of configuration.
\<close>

lemma extend_after_direct_write_lowers_expiry:
  "fst (ExtendSession (1 * Minute) ''W1''
          (NewSessionManager\<lparr>sessions := AList.update ''W1''
             \<lparr> WalletID = ''W1'', UnlockedWallet = None, CreatedAt = 0, LastActivity = 0,
               ExpiresAt = 30 * Minute, SessionToken = ''aa'', IsActive = True \<rparr> []\<rparr>)) = None
   \<and> map_option ExpiresAt (map_of (sessions (snd (ExtendSession (1 * Minute) ''W1''
          (NewSessionManager\<lparr>sessions := AList.update ''W1''
             \<lparr> WalletID = ''W1'', UnlockedWallet = None, CreatedAt = 0, LastActivity = 0,
               ExpiresAt = 30 * Minute, SessionToken = ''aa'', IsActive = True \<rparr> []\<rparr>)))) ''W1'')
     = Some (6 * Minute)
   \<and> 6 * Minute < 30 * Minute"
  by (simp add: run_simps)


section \<open>The session registry: closing a session\<close>

text \<open>What \<open>CloseSession\<close> does achieve on every registry: when it succeeds, the closed
  session object has an empty token and is inactive, its wallet has lost the private key
  and the mnemonic if it held a private key, and the identity has no entry, so
  \<open>GetSession\<close> finds nothing and \<open>ValidateSession\<close> is false for every token.\<close>

lemma CloseSession_clears:
  assumes "CloseSession w sm = (None, closed, sm')"
  shows "\<exists>s. map_of (sessions sm) w = Some s
           \<and> closed = Some (clearSensitiveData (s\<lparr>IsActive := False\<rparr>))
           \<and> SessionToken (the closed) = [] \<and> \<not> IsActive (the closed)"
    and "map_of (sessions sm') w = None"
    and "GetSession now w sm' = None"
    and "\<not> ValidateSession now w token sm'"
  using assms
  by (auto simp: CloseSession_def clearSensitiveData_def GetSession_def ValidateSession_def
        Let_def delete_conv' split: option.splits)

lemma clearSensitiveData_with_key:
  assumes "UnlockedWallet s = Some wallet" and "PrivateKey wallet = Some key"
  shows "\<exists>wallet'. UnlockedWallet (clearSensitiveData s) = Some wallet'
           \<and> PrivateKey wallet' = None \<and> Mnemonic wallet' = []"
  using assms by (simp add: clearSensitiveData_def)

text \<open>
  C8. A session is created for a wallet that holds a mnemonic and no private key, and is
  then closed. \<open>CloseSession\<close> succeeds, the token of the closed session is empty, the
  identity has no entry left and \<open>ValidateSession\<close> turns false, but the wallet of the
  closed session still holds its mnemonic: \<open>clearSensitiveData\<close> clears the mnemonic only
  inside the branch that found a private key.
\<close>

theorem close_session_keeps_mnemonic_without_private_key:
  "fst (CloseSession ''W2'' (snd (CreateSession 0 (replicate 32 1) wallet2 NewSessionManager)))
     = None
   \<and> map_option SessionToken (fst (snd (CloseSession ''W2''
        (snd (CreateSession 0 (replicate 32 1) wallet2 NewSessionManager))))) = Some []
   \<and> map_option (map_option Mnemonic \<circ> UnlockedWallet) (fst (snd (CloseSession ''W2''
        (snd (CreateSession 0 (replicate 32 1) wallet2 NewSessionManager)))))
      = Some (Some ''abandon ability able'')
   \<and> map_of (sessions (snd (snd (CloseSession ''W2''
        (snd (CreateSession 0 (replicate 32 1) wallet2 NewSessionManager)))))) ''W2'' = None
   \<and> \<not> ValidateSession 1 ''W2'' (concat (replicate 32 ''01'')) (snd (snd (CloseSession ''W2''
        (snd (CreateSession 0 (replicate 32 1) wallet2 NewSessionManager)))))
   \<and> ValidateSession 1 ''W2'' (concat (replicate 32 ''01''))
        (snd (CreateSession 0 (replicate 32 1) wallet2 NewSessionManager))"
  by (simp add: run_simps)

section \<open>The risk score in closed form\<close>

lemma freq_get_incr: "freq_get (freq_incr m k) k' = (if k' = k then freq_get m k + 1 else freq_get m k')"
  by (simp add: freq_get_def freq_incr_def update_conv')

lemma time_Sub_less_iff: "time_Sub b a < 500 * Millisecond \<longleftrightarrow> b - a < 500 * Millisecond"
  by (simp add: time_Sub_def Millisecond_def maxDuration_def minDuration_def)

lemma rapidTransitions_eq: "rapidTransitions ts = int (rapid_pairs ts)"
  by (induction ts rule: rapidTransitions.induct)
     (simp_all add: rapid_pairs_def time_Sub_less_iff)

text \<open>The pattern that the loop of \<open>analyzeActivityPattern\<close> builds.\<close>

lemma pattern_fold:
  fixes p :: ActivityPattern
  defines "f \<equiv> (\<lambda>p activity.
               p\<lparr>ViewTransitions := ViewTransitions p @ [ViewName activity],
                 ActionFrequency := freq_incr (ActionFrequency p) (Action activity),
                 TimePattern := TimePattern p @ [Timestamp activity]\<rparr>)"
  shows "ViewTransitions (foldl f p acts) = ViewTransitions p @ map ViewName acts"
    and "TimePattern (foldl f p acts) = TimePattern p @ map Timestamp acts"
    and "freq_get (ActionFrequency (foldl f p acts)) a
         = freq_get (ActionFrequency p) a + int (action_count acts a)"
  by (induction acts arbitrary: p) (simp_all add: f_def freq_get_incr action_count_def)

lemma repeatedViews_general:
  assumes "finite S" and "set views \<subseteq> S"
  shows "repeatedViews views vc r =
         r + (\<Sum>v \<in> S. excess (freq_get vc v + int (count_list views v)) - excess (freq_get vc v))"
  using assms(2)
proof (induction views arbitrary: vc r)
  case Nil
  then show ?case by simp
next
  case (Cons x xs)
  let ?vc = "freq_incr vc x"
  let ?g = "freq_get vc x"
  from Cons.prems have xS: "x \<in> S" and sub: "set xs \<subseteq> S" by simp_all
  have rest: "(\<Sum>v \<in> S - {x}. excess (freq_get ?vc v + int (count_list xs v)) - excess (freq_get ?vc v))
            = (\<Sum>v \<in> S - {x}. excess (freq_get vc v + int (count_list (x # xs) v)) - excess (freq_get vc v))"
    by (rule sum.cong) (auto simp: freq_get_incr)
  have "repeatedViews (x # xs) vc r
        = repeatedViews xs ?vc (if ?g + 1 > 10 then r + 1 else r)"
    by (simp add: Let_def freq_get_incr)
  also have "\<dots> = (if ?g + 1 > 10 then r + 1 else r)
        + (\<Sum>v \<in> S. excess (freq_get ?vc v + int (count_list xs v)) - excess (freq_get ?vc v))"
    by (rule Cons.IH [OF sub])
  also have "\<dots> = (if ?g + 1 > 10 then r + 1 else r)
        + ((excess (?g + 1 + int (count_list xs x)) - excess (?g + 1))
           + (\<Sum>v \<in> S - {x}. excess (freq_get ?vc v + int (count_list xs v)) - excess (freq_get ?vc v)))"
    by (simp add: sum.remove [OF assms(1) xS] freq_get_incr)
  also have "\<dots> = r + ((excess (?g + int (count_list (x # xs) x)) - excess ?g)
           + (\<Sum>v \<in> S - {x}. excess (freq_get vc v + int (count_list (x # xs) v)) - excess (freq_get vc v)))"
  proof -
    have "(if ?g + 1 > 10 then r + 1 else r) = r + (excess (?g + 1) - excess ?g)"
      by (simp add: excess_def)
    then show ?thesis unfolding rest by (simp add: add.commute add.left_commute)
  qed
  also have "\<dots> = r + (\<Sum>v \<in> S. excess (freq_get vc v + int (count_list (x # xs) v)) - excess (freq_get vc v))"
    by (simp add: sum.remove [OF assms(1) xS])
  finally show ?case .
qed

lemma repeatedViews_eq: "repeatedViews views [] 0 = int (visits_beyond_tenth views)"
proof -
  have "repeatedViews views [] 0
        = (\<Sum>v \<in> set views. excess (freq_get [] v + int (count_list views v)) - excess (freq_get [] v))"
    using repeatedViews_general [of "set views" views "[]" 0] by simp
  also have "\<dots> = (\<Sum>v \<in> set views. int (count_list views v - 10))"
    by (rule sum.cong) (auto simp: excess_def freq_get_def)
  finally show ?thesis by (simp add: visits_beyond_tenth_def)
qed


text \<open>
  C3, as amended. The risk score of an identity is computed from the activities of that
  identity in the log whose timestamp is later than one hour before \<open>now\<close>, and is the sum
  of: 5 if there are more than 50 of them; 3 if more than 10 of them follow their
  predecessor by less than 500 ms; 8 if more than 5 have the action \<open>password_attempt\<close>;
  4 if more than 3 have the action \<open>failed_transaction\<close>; and 2 if more than 2 of the
  visits are a visit of a view beyond the tenth visit of that view.
\<close>

theorem risk_score_weighted_sum:
  "GetRecentActivity now walletID (1 * Hour) am
     = filter (\<lambda>a. act_WalletID a = walletID \<and> now - Hour < Timestamp a) (activityLog am)
   \<and> RiskScore (analyzeActivityPattern now walletID am) =
      (let acts = GetRecentActivity now walletID (1 * Hour) am
       in (if length acts > 50 then 5 else 0)
        + (if rapid_pairs (map Timestamp acts) > 10 then 3 else 0)
        + (if action_count acts ''password_attempt'' > 5 then 8 else 0)
        + (if action_count acts ''failed_transaction'' > 3 then 4 else 0)
        + (if visits_beyond_tenth (map ViewName acts) > 2 then 2 else 0))"
proof
  show "GetRecentActivity now walletID (1 * Hour) am
     = filter (\<lambda>a. act_WalletID a = walletID \<and> now - Hour < Timestamp a) (activityLog am)"
    by (simp add: GetRecentActivity_def time_Add_def time_After_def)
  show "RiskScore (analyzeActivityPattern now walletID am) =
      (let acts = GetRecentActivity now walletID (1 * Hour) am
       in (if length acts > 50 then 5 else 0)
        + (if rapid_pairs (map Timestamp acts) > 10 then 3 else 0)
        + (if action_count acts ''password_attempt'' > 5 then 8 else 0)
        + (if action_count acts ''failed_transaction'' > 3 then 4 else 0)
        + (if visits_beyond_tenth (map ViewName acts) > 2 then 2 else 0))"
  proof -
    have e: "freq_get [] a = 0" for a by (simp add: freq_get_def)
    show ?thesis
      by (simp add: analyzeActivityPattern_def calculateRiskScore_def Let_def pattern_fold
            rapidTransitions_eq repeatedViews_eq e)
  qed
qed

text \<open>
  C3, as stated, fails: for twelve visits of one view, a second apart, the code computes
  the risk score 0, while the sum as the specification words it is 2, since a single view
  is visited 12 times.
\<close>

theorem twelve_visits_of_one_view_score_zero:
  "RiskScore (analyzeActivityPattern (12 * Second) ''W3'' twelve_visits) = 0
   \<and> risk_score_as_specified (GetRecentActivity (12 * Second) ''W3'' (1 * Hour) twelve_visits) = 2
   \<and> length (GetRecentActivity (12 * Second) ''W3'' (1 * Hour) twelve_visits) = 12"
  by code_simp

section \<open>The session store: saving and loading\<close>

lemma rand_Read_Some:
  "rand_Read n src = (Some bs, src') \<Longrightarrow> length bs = n \<and> bs = take n src \<and> src' = drop n src"
  by (auto simp: rand_Read_def split: if_splits)



lemma Encrypt_Inr:
  assumes "Encrypt P data password src = (Inr e, src')"
  shows "\<exists>salt nonce. length salt = saltLength \<and> length nonce = nonceLength
           \<and> aes_NewCipher_ok (pbkdf2_Key P password salt)
           \<and> e = \<lparr> Salt = salt, Nonce = nonce,
                   Ciphertext = gcm_Seal P (pbkdf2_Key P password salt) nonce data \<rparr>"
proof -
  from assms obtain salt src1 where s: "rand_Read saltLength src = (Some salt, src1)"
    by (auto simp: Encrypt_def split: prod.splits option.splits)
  with assms have k: "aes_NewCipher_ok (pbkdf2_Key P password salt)"
    by (auto simp: Encrypt_def Let_def split: if_splits)
  with assms s obtain nonce src2 where n: "rand_Read nonceLength src1 = (Some nonce, src2)"
    by (auto simp: Encrypt_def Let_def split: prod.splits option.splits)
  from rand_Read_Some [OF n] have "length nonce = nonceLength" by (rule conjunct1)
  moreover from rand_Read_Some [OF s] have "length salt = saltLength" by (rule conjunct1)
  moreover from assms s k n
  have "e = \<lparr> Salt = salt, Nonce = nonce,
              Ciphertext = gcm_Seal P (pbkdf2_Key P password salt) nonce data \<rparr>"
    by (simp add: Encrypt_def Let_def)
  ultimately show ?thesis using k by blast
qed

lemma persistSession_payload:
  assumes "persistSession P ss s src = (Inr p, src')"
  shows "\<exists>dataBytes salt nonce.
           json_Marshal_SessionData P \<lparr> sd_WalletID = WalletID s, sd_LastActivity = LastActivity s,
                                         sd_IsActive = IsActive s \<rparr> = Some dataBytes
         \<and> length salt = saltLength \<and> length nonce = nonceLength
         \<and> aes_NewCipher_ok (pbkdf2_Key P (hex_EncodeToString (ss_encryptionKey ss)) salt)
         \<and> json_Marshal_EncryptedData P
               \<lparr> Salt = salt, Nonce = nonce,
                 Ciphertext = gcm_Seal P (pbkdf2_Key P (hex_EncodeToString (ss_encryptionKey ss)) salt)
                                nonce dataBytes \<rparr> = Some (EncryptedData p)"
proof -
  from assms obtain dataBytes where
    m: "json_Marshal_SessionData P \<lparr> sd_WalletID = WalletID s, sd_LastActivity = LastActivity s,
                                     sd_IsActive = IsActive s \<rparr> = Some dataBytes"
    by (auto simp: persistSession_def Let_def split: option.splits)
  with assms have d: "encryptData P ss dataBytes src = (Inr (EncryptedData p), src')"
    by (auto simp: persistSession_def Let_def split: prod.splits sum.splits)
  then obtain e src1 where
    e: "Encrypt P dataBytes (hex_EncodeToString (ss_encryptionKey ss)) src = (Inr e, src1)"
    and j: "json_Marshal_EncryptedData P e = Some (EncryptedData p)"
    by (auto simp: encryptData_def split: prod.splits sum.splits option.splits)
  from Encrypt_Inr [OF e] j m show ?thesis by blast
qed





lemma loadLoop_closed:
  "\<forall>p \<in> set ps. \<exists>r. restoreSession P now ss p = Inr r \<Longrightarrow>
   \<exists>res. loadLoop P now ss ps acc = Inr res
        \<and> map_of res = map_of acc ++ map_of (rev (restored P now ss ps))"
proof (induction ps arbitrary: acc)
  case Nil
  then show ?case by (simp add: restored_def map_filter_simps)
next
  case (Cons p ps)
  from Cons.prems obtain r where r: "restoreSession P now ss p = Inr r" by auto
  from Cons.prems have rest: "\<forall>p \<in> set ps. \<exists>r. restoreSession P now ss p = Inr r" by simp
  show ?case
  proof (cases r)
    case None
    with r Cons.IH [OF rest, of acc] show ?thesis
      by (simp add: restored_def map_filter_simps)
  next
    case (Some s)
    from Cons.IH [OF rest, of "AList.update (ps_WalletID p) s acc"] obtain res where
      l: "loadLoop P now ss ps (AList.update (ps_WalletID p) s acc) = Inr res"
      and m: "map_of res = map_of (AList.update (ps_WalletID p) s acc) ++ map_of (rev (restored P now ss ps))"
      by blast
    have "restored P now ss (p # ps) = (ps_WalletID p, s) # restored P now ss ps"
      using r Some by (simp add: restored_def map_filter_simps)
    then have "map_of acc ++ map_of (rev (restored P now ss (p # ps)))
          = map_of (AList.update (ps_WalletID p) s acc) ++ map_of (rev (restored P now ss ps))"
      by (simp add: update_conv' map_add_upd_left fun_eq_iff map_add_def split: option.splits)
    with l m r Some show ?thesis by simp
  qed
qed

lemma loadLoop_no_panic:
  "loadLoop P now ss ps acc = Inr res \<Longrightarrow> \<forall>p \<in> set ps. \<exists>r. restoreSession P now ss p = Inr r"
  by (induction ps arbitrary: acc) (auto split: sum.splits option.splits)

lemma set_map_filter_eq: "set (List.map_filter f xs) = {y. \<exists>x \<in> set xs. f x = Some y}"
  by (induction xs) (auto simp: map_filter_simps split: option.splits)

lemma restored_entry:
  "(case restoreSession P now ss p of Inr (Some session) \<Rightarrow> Some (ps_WalletID p, session) | _ \<Rightarrow> None)
     = Some (k, s) \<longleftrightarrow> ps_WalletID p = k \<and> restoreSession P now ss p = Inr (Some s)"
  by (cases "restoreSession P now ss p") (auto split: option.splits)

lemma set_restored:
  "set (restored P now ss ps) =
     {(ps_WalletID p, s) | p s. p \<in> set ps \<and> restoreSession P now ss p = Inr (Some s)}"
proof -
  have "(k, s) \<in> set (restored P now ss ps) \<longleftrightarrow>
        (\<exists>p \<in> set ps. ps_WalletID p = k \<and> restoreSession P now ss p = Inr (Some s))" for k s
    unfolding restored_def set_map_filter_eq mem_Collect_eq restored_entry ..
  then show ?thesis by auto
qed

lemma distinct_restored:
  "distinct (map ps_WalletID ps) \<Longrightarrow> distinct (map fst (restored P now ss ps))"
proof (induction ps)
  case Nil
  then show ?case by (simp add: restored_def map_filter_simps)
next
  case (Cons p ps)
  then have d: "distinct (map fst (restored P now ss ps))"
    and n: "ps_WalletID p \<notin> ps_WalletID ` set ps" by simp_all
  have "ps_WalletID p \<notin> fst ` set (restored P now ss ps)"
    using n by (auto simp: set_restored)
  with d show ?case
    by (auto simp: restored_def map_filter_simps split: sum.splits option.splits)
qed

lemma restored_lookup:
  assumes "distinct (map ps_WalletID ps)"
  shows "map_of (rev (restored P now ss ps)) k = Some s \<longleftrightarrow>
         (\<exists>p \<in> set ps. ps_WalletID p = k \<and> restoreSession P now ss p = Inr (Some s))"
proof -
  have "distinct (map fst (rev (restored P now ss ps)))"
    using distinct_restored [OF assms] by (simp add: rev_map [symmetric])
  then have "map_of (rev (restored P now ss ps)) k = Some s
             \<longleftrightarrow> (k, s) \<in> set (rev (restored P now ss ps))"
    by (rule map_of_eq_Some_iff)
  then show ?thesis by (auto simp: set_restored)
qed







section \<open>The session store: a tampered record\<close>

lemma low_nibble_mod: "unat ((v::byte) AND 0x0f) = unat v mod 16"
proof -
  have "(0x0f :: byte) = mask 4" by (simp add: mask_eq_exp_minus_1)
  then have "v AND 0x0f = take_bit 4 v" by (simp add: take_bit_eq_mask)
  then show ?thesis by (simp add: unsigned_take_bit_eq take_bit_eq_mod unat_mod)
qed

lemma high_nibble_div: "unat (drop_bit 4 (v::byte)) = unat v div 16"
  by (simp add: unat_drop_bit_eq drop_bit_eq_div unat_div)

lemma hextable_inj:
  assumes "k < 16" and "k' < 16" and "hextable ! k = hextable ! k'"
  shows "k = k'"
proof -
  have "distinct hextable" and "length hextable = 16" by (simp_all add: hextable_def)
  with assms show ?thesis by (simp add: nth_eq_iff_index_eq)
qed

lemma hex_EncodeToString_inj:
  "hex_EncodeToString bs = hex_EncodeToString bs' \<Longrightarrow> bs = bs'"
proof (induction bs arbitrary: bs')
  case Nil
  then show ?case by (cases bs') (simp_all add: hex_EncodeToString_def)
next
  case (Cons v bs)
  then obtain v' rest where b: "bs' = v' # rest"
    by (cases bs') (simp_all add: hex_EncodeToString_def)
  from Cons.prems b have hi: "hextable ! unat (drop_bit 4 v) = hextable ! unat (drop_bit 4 v')"
    and lo: "hextable ! unat (v AND 0x0f) = hextable ! unat (v' AND 0x0f)"
    and tl: "hex_EncodeToString bs = hex_EncodeToString rest"
    by (simp_all add: hex_EncodeToString_def)
  from hextable_inj [OF high_nibble_less high_nibble_less hi]
  have "unat v div 16 = unat v' div 16" by (simp add: high_nibble_div)
  moreover from hextable_inj [OF low_nibble_less low_nibble_less lo]
  have "unat v mod 16 = unat v' mod 16" by (simp add: low_nibble_mod)
  ultimately have "unat v = unat v'" by (metis div_mult_mod_eq)
  then have "v = v'" by (rule word_unat_eq_iff [THEN iffD2])
  with Cons.IH [OF tl] b show ?case by simp
qed

text \<open>
  C6. A file holds the records \<open>ps\<close>, with distinct wallet identities, and \<open>LoadSessions\<close>
  on it returns a map. In a second file one byte of the encrypted payload of the record at
  position \<open>i\<close>, whose checksum matched, is changed, and SHA-256 tells the changed payload
  from the original one. Then \<open>LoadSessions\<close> on the second file returns a map too; the
  changed record fails the integrity check, and its wallet identity has no session in the
  map; every other wallet identity has exactly the session it has in the map loaded from
  the first file.
\<close>

theorem tampered_record_dropped:
  fixes P :: primitives and ss :: SessionStore and ps :: "PersistedSession list"
  defines "tampered \<equiv> \<lambda>ps i j b. (ps ! i)\<lparr>EncryptedData := (EncryptedData (ps ! i))[j := b]\<rparr>"
  assumes orig: "readSessionsFromFile P ss fs = Inr ps"
    and changed: "readSessionsFromFile P ss fs' = Inr (ps[i := tampered ps i j b])"
    and i: "i < length ps"
    and j: "j < length (EncryptedData (ps ! i))"
    and b: "b \<noteq> EncryptedData (ps ! i) ! j"
    and intact: "ValidateSessionIntegrity P (ps ! i)"
    and sha: "sha256_Sum256 P ((EncryptedData (ps ! i))[j := b]) \<noteq> sha256_Sum256 P (EncryptedData (ps ! i))"
    and ids: "distinct (map ps_WalletID ps)"
    and load: "LoadSessions P now ss fs = Inr loaded"
  shows "\<exists>loaded'. LoadSessions P now ss fs' = Inr loaded'
           \<and> \<not> ValidateSessionIntegrity P (tampered ps i j b)
           \<and> map_of loaded' (ps_WalletID (ps ! i)) = None
           \<and> (\<forall>k. k \<noteq> ps_WalletID (ps ! i) \<longrightarrow> map_of loaded' k = map_of loaded k)"
proof -
  let ?x = "tampered ps i j b"
  let ?ps' = "ps[i := ?x]"
  let ?w = "ps_WalletID (ps ! i)"
  have bad: "\<not> ValidateSessionIntegrity P ?x"
  proof
    assume "ValidateSessionIntegrity P ?x"
    with intact have "hex_EncodeToString (sha256_Sum256 P ((EncryptedData (ps ! i))[j := b]))
        = hex_EncodeToString (sha256_Sum256 P (EncryptedData (ps ! i)))"
      by (simp add: ValidateSessionIntegrity_def calculateChecksum_def tampered_def)
    then have "sha256_Sum256 P ((EncryptedData (ps ! i))[j := b])
        = sha256_Sum256 P (EncryptedData (ps ! i))"
      by (rule hex_EncodeToString_inj)
    with sha show False by simp
  qed
  then have skip: "restoreSession P now ss ?x = Inr None"
    by (simp add: restoreSession_def)
  have wx: "ps_WalletID ?x = ?w" by (simp add: tampered_def)
  from load orig have l: "loadLoop P now ss ps [] = Inr loaded"
    by (simp add: LoadSessions_def)
  from loadLoop_no_panic [OF l] have np: "\<forall>p \<in> set ps. \<exists>r. restoreSession P now ss p = Inr r" .
  have "set ?ps' \<subseteq> insert ?x (set ps)" by (rule set_update_subset_insert)
  with np skip have np': "\<forall>p \<in> set ?ps'. \<exists>r. restoreSession P now ss p = Inr r" by auto
  from loadLoop_closed [OF np, of "[]"] l
  have m: "map_of loaded = map_of (rev (restored P now ss ps))" by simp
  from loadLoop_closed [OF np', of "[]"] obtain loaded' where
    l': "loadLoop P now ss ?ps' [] = Inr loaded'"
    and m': "map_of loaded' = map_of (rev (restored P now ss ?ps'))" by auto
  have "map ps_WalletID ?ps' = map ps_WalletID ps"
    using i wx by (simp add: map_update list_update_same_conv)
  with ids have ids': "distinct (map ps_WalletID ?ps')" by simp
  have dps: "distinct ps" using ids by (rule distinct_map [THEN iffD1, THEN conjunct1])
  have set': "set ?ps' = insert ?x (set ps - {ps ! i})"
    using dps i by (rule set_update_distinct)
  have only: "p = ps ! i" if "p \<in> set ps" and "ps_WalletID p = ?w" for p
  proof -
    from ids have "inj_on ps_WalletID (set ps)" by (simp add: distinct_map)
    moreover from i have "ps ! i \<in> set ps" by simp
    ultimately show ?thesis using that by (auto dest: inj_onD)
  qed
  have look: "map_of loaded' k = Some s \<longleftrightarrow> k \<noteq> ?w \<and> map_of loaded k = Some s" for k s
    unfolding m m' restored_lookup [OF ids] restored_lookup [OF ids'] set'
    using skip wx only by auto
  have none: "map_of loaded' ?w = None"
  proof (cases "map_of loaded' ?w")
    case (Some s)
    with look [of ?w s] show ?thesis by simp
  qed simp
  have same: "map_of loaded' k = map_of loaded k" if "k \<noteq> ?w" for k
  proof (cases "map_of loaded' k")
    case None
    show ?thesis
    proof (cases "map_of loaded k")
      case (Some s)
      with look [of k s] that None show ?thesis by simp
    qed (simp add: None)
  next
    case (Some s)
    with look [of k s] show ?thesis by simp
  qed
  from changed l' have "LoadSessions P now ss fs' = Inr loaded'" by (simp add: LoadSessions_def)
  with bad none same show ?thesis by blast
qed

section \<open>The session store: no secret reaches the file\<close>

lemma persistSession_secret:
  "persistSession P ss (s\<lparr>UnlockedWallet := u\<rparr>) src = persistSession P ss s src"
  by (simp add: persistSession_def cong: option.case_cong prod.case_cong sum.case_cong)

lemma saveLoop_secret:
  "saveLoop P ss (map (\<lambda>(t, k, s). (t, k, s\<lparr>UnlockedWallet := None\<rparr>)) entries) acc src
     = saveLoop P ss entries acc src"
proof (induction entries arbitrary: acc src)
  case Nil
  show ?case by simp
next
  case (Cons x entries)
  obtain t k s where x: "x = (t, k, s)" by (cases x)
  show ?case unfolding x
    by (simp add: persistSession_secret Cons.IH split: prod.splits sum.splits)
qed

text \<open>
  C7. The payload of every record that \<open>SaveSessions\<close> writes is the encoding, sealed and
  encoded again, of a \<open>SessionData\<close> made of the session's wallet identity, last-activity
  time and active flag. Two lists of entries that are equal once the reference to the
  unlocked wallet is set to nil in every session give the same result, the same file
  system and the same remaining randomness, for the same primitives, store, random bytes
  and faults.
\<close>

theorem save_ignores_secrets:
  "(\<forall>s src p src'. persistSession P ss s src = (Inr p, src') \<longrightarrow>
      (\<exists>dataBytes salt nonce.
          json_Marshal_SessionData P \<lparr> sd_WalletID = WalletID s, sd_LastActivity = LastActivity s,
                                        sd_IsActive = IsActive s \<rparr> = Some dataBytes
        \<and> json_Marshal_EncryptedData P
              \<lparr> Salt = salt, Nonce = nonce,
                Ciphertext = gcm_Seal P (pbkdf2_Key P (hex_EncodeToString (ss_encryptionKey ss)) salt)
                               nonce dataBytes \<rparr> = Some (EncryptedData p)))
   \<and> (\<forall>xs ys io src fs.
        map (\<lambda>(t, k, s). (t, k, s\<lparr>UnlockedWallet := None\<rparr>)) xs
          = map (\<lambda>(t, k, s). (t, k, s\<lparr>UnlockedWallet := None\<rparr>)) ys \<longrightarrow>
        SaveSessions P io ss xs src fs = SaveSessions P io ss ys src fs)"
proof (intro conjI allI impI)
  fix s src p src'
  assume "persistSession P ss s src = (Inr p, src')"
  from persistSession_payload [OF this]
  show "\<exists>dataBytes salt nonce.
          json_Marshal_SessionData P \<lparr> sd_WalletID = WalletID s, sd_LastActivity = LastActivity s,
                                        sd_IsActive = IsActive s \<rparr> = Some dataBytes
        \<and> json_Marshal_EncryptedData P
              \<lparr> Salt = salt, Nonce = nonce,
                Ciphertext = gcm_Seal P (pbkdf2_Key P (hex_EncodeToString (ss_encryptionKey ss)) salt)
                               nonce dataBytes \<rparr> = Some (EncryptedData p)"
    by blast
next
  fix xs ys :: "(time \<times> string \<times> WalletSession) list" and io :: io_faults
    and src :: entropy and fs :: filesystem
  assume e: "map (\<lambda>(t, k, s). (t, k, s\<lparr>UnlockedWallet := None\<rparr>)) xs
          = map (\<lambda>(t, k, s). (t, k, s\<lparr>UnlockedWallet := None\<rparr>)) ys"
  have "saveLoop P ss xs [] src = saveLoop P ss ys [] src"
    using saveLoop_secret [of P ss xs "[]" src] saveLoop_secret [of P ss ys "[]" src] e by simp
  then show "SaveSessions P io ss xs src fs = SaveSessions P io ss ys src fs"
    by (simp add: SaveSessions_def)
qed

section \<open>The session store: concrete runs\<close>

lemmas demo_simps =
  demo_store_def demo_io_def demo_session1_def demo_session2_def demo_payload_def
  demo_record1_def demo_record2_def demo_persisted_def demo_tampered_def demo_primitives_def
  SaveSessions_def persistSession_def encryptData_def Encrypt_def rand_Read_def
  saltLength_def nonceLength_def aes_NewCipher_ok_def calculateChecksum_def
  writeSessionsToFile_def readSessionsFromFile_def LoadSessions_def restoreSession_def
  ValidateSessionIntegrity_def decryptSessionData_def Decrypt_def time_After_def Let_def





lemma demo_save:
  "SaveSessions demo_primitives demo_io demo_store
     [(10, ''W1'', demo_session1), (10, ''W2'', demo_session2)] (replicate 88 0) Map.empty
   = (None, [''sessions.enc'' \<mapsto> [7]], [])"
  by (simp add: demo_simps fun_eq_iff)


lemma demo_load:
  "LoadSessions demo_primitives 20 demo_store [''sessions.enc'' \<mapsto> [7]]
   = Inr [(''W1'', demo_session1\<lparr>UnlockedWallet := None\<rparr>),
          (''W2'', demo_session2\<lparr>UnlockedWallet := None\<rparr>)]"
  by (simp add: demo_simps)


theorem tampered_record_dropped_witness:
  "LoadSessions demo_primitives 20 demo_store [''sessions.enc'' \<mapsto> [7]]
     = Inr [(''W1'', demo_session1\<lparr>UnlockedWallet := None\<rparr>),
            (''W2'', demo_session2\<lparr>UnlockedWallet := None\<rparr>)]
   \<and> readSessionsFromFile demo_primitives demo_store [''sessions.enc'' \<mapsto> [8]] = Inr demo_tampered
   \<and> (case LoadSessions demo_primitives 20 demo_store [''sessions.enc'' \<mapsto> [8]] of
         Inl err \<Rightarrow> False
       | Inr loaded \<Rightarrow> map_of loaded ''W1'' = None
                      \<and> map_of loaded ''W2'' = Some (demo_session2\<lparr>UnlockedWallet := None\<rparr>))"
proof -
  have orig: "readSessionsFromFile demo_primitives demo_store [''sessions.enc'' \<mapsto> [7]]
              = Inr demo_persisted"
    by (simp add: readSessionsFromFile_def demo_store_def demo_primitives_def)
  have changed: "readSessionsFromFile demo_primitives demo_store [''sessions.enc'' \<mapsto> [8]]
      = Inr (demo_persisted[0 := (demo_persisted ! 0)\<lparr>EncryptedData :=
                                   (EncryptedData (demo_persisted ! 0))[44 := 9]\<rparr>])"
    by (simp add: readSessionsFromFile_def demo_store_def demo_primitives_def demo_tampered_def)
  have i: "0 < length demo_persisted" by (simp add: demo_persisted_def)
  have j: "44 < length (EncryptedData (demo_persisted ! 0))"
    by (simp add: demo_persisted_def demo_record1_def demo_payload_def)
  have b: "9 \<noteq> EncryptedData (demo_persisted ! 0) ! 44"
    by (simp add: demo_persisted_def demo_record1_def demo_payload_def nth_append)
  have intact: "ValidateSessionIntegrity demo_primitives (demo_persisted ! 0)"
    by (simp add: ValidateSessionIntegrity_def calculateChecksum_def demo_persisted_def
          demo_record1_def demo_primitives_def)
  have sha: "sha256_Sum256 demo_primitives ((EncryptedData (demo_persisted ! 0))[44 := 9])
             \<noteq> sha256_Sum256 demo_primitives (EncryptedData (demo_persisted ! 0))"
    by (simp add: demo_primitives_def demo_persisted_def demo_record1_def demo_payload_def
          list_update_append)
  have ids: "distinct (map ps_WalletID demo_persisted)"
    by (simp add: demo_persisted_def demo_record1_def demo_record2_def)
  from tampered_record_dropped [OF orig changed i j b intact sha ids demo_load]
  obtain loaded' where
    "LoadSessions demo_primitives 20 demo_store [''sessions.enc'' \<mapsto> [8]] = Inr loaded'"
    and "map_of loaded' (ps_WalletID (demo_persisted ! 0)) = None"
    and "\<forall>k. k \<noteq> ps_WalletID (demo_persisted ! 0) \<longrightarrow>
           map_of loaded' k = map_of [(''W1'', demo_session1\<lparr>UnlockedWallet := None\<rparr>),
                                      (''W2'', demo_session2\<lparr>UnlockedWallet := None\<rparr>)] k"
    by blast
  moreover have "ps_WalletID (demo_persisted ! 0) = ''W1''"
    by (simp add: demo_persisted_def demo_record1_def)
  ultimately have "LoadSessions demo_primitives 20 demo_store [''sessions.enc'' \<mapsto> [8]] = Inr loaded'"
    and "map_of loaded' ''W1'' = None"
    and "map_of loaded' ''W2'' = Some (demo_session2\<lparr>UnlockedWallet := None\<rparr>)"
    by simp_all
  with demo_load changed show ?thesis by (simp add: demo_tampered_def)
qed

theorem save_ignores_secrets_witness:
  "SaveSessions demo_primitives demo_io demo_store
     [(10, ''W1'', demo_session1), (10, ''W2'', demo_session2)] (replicate 88 0) Map.empty
   = SaveSessions demo_primitives demo_io demo_store
     [(10, ''W1'', demo_session1\<lparr>UnlockedWallet := None\<rparr>),
      (10, ''W2'', demo_session2\<lparr>UnlockedWallet := Some wallet1\<rparr>)] (replicate 88 0) Map.empty
   \<and> fst (SaveSessions demo_primitives demo_io demo_store
          [(10, ''W1'', demo_session1\<lparr>UnlockedWallet := None\<rparr>),
           (10, ''W2'', demo_session2\<lparr>UnlockedWallet := Some wallet1\<rparr>)] (replicate 88 0) Map.empty)
       = None"
proof -
  have e: "map (\<lambda>(t, k, s). (t, k, s\<lparr>UnlockedWallet := None\<rparr>))
             [(10::time, ''W1'', demo_session1), (10, ''W2'', demo_session2)]
         = map (\<lambda>(t, k, s). (t, k, s\<lparr>UnlockedWallet := None\<rparr>))
             [(10, ''W1'', demo_session1\<lparr>UnlockedWallet := None\<rparr>),
              (10, ''W2'', demo_session2\<lparr>UnlockedWallet := Some wallet1\<rparr>)]"
    by simp
  note eq = save_ignores_secrets [THEN conjunct2, rule_format, OF e,
      of demo_primitives demo_io demo_store "replicate 88 0" Map.empty]
  show ?thesis by (simp add: eq [symmetric] demo_save)
qed

end
